theory Spec2Isabelle
  imports
    Main
    "HOL-Library.Sublist"
    "HOL-Library.Char_ord"
    "HOL-Library.List_Lexorder"
    "HOL-Library.Product_Lexorder"
    "HOL-Library.Multiset"
begin

section \<open>Go values shared by both services\<close>

text \<open>
  Go's \<open>int\<close> is a 64-bit two's-complement integer on the platforms the services are
  built for. Values are modelled by HOL's \<open>int\<close>; \<open>goInt\<close> is the wrap-around that
  every Go addition and multiplication performs.
\<close>

definition goInt :: "int \<Rightarrow> int" where
  "goInt x = (x + 2 ^ 63) mod 2 ^ 64 - 2 ^ 63"

text \<open>
  Indexing a Go \<open>map[string]string\<close> with a key it does not hold yields the empty
  string.
\<close>

definition index :: "(string \<rightharpoonup> string) \<Rightarrow> string \<Rightarrow> string" where
  "index m k = (case m k of None \<Rightarrow> [] | Some v \<Rightarrow> v)"

text \<open>
  A \<open>time.Time\<close> holds a wall clock reading, possibly a monotonic clock reading, and a
  pointer to a \<open>Location\<close>. The wall clock reading is modelled by its instant, the
  nanoseconds elapsed since January 1, year 1, 00:00 UTC, negative before it; the
  pointer by a number, \<open>None\<close> for the nil pointer, which stands for UTC. Go's \<open>==\<close>
  on two times compares all three, so it is HOL's equality on this record. \<open>After\<close>
  and \<open>Before\<close> compare the monotonic readings when both times have one and the
  instants otherwise. The zero value of the type is the instant 0 with no monotonic
  reading and the nil pointer.

  A time decoded by \<open>json.Unmarshal\<close> from RFC 3339 text has no monotonic reading;
  its pointer is nil for text ending in \<open>Z\<close>, and the local zone or a fresh
  fixed zone for text with a numeric offset.
\<close>

record Time =
  instant :: int
  monotonic :: "int option"
  loc :: "nat option"

definition After :: "Time \<Rightarrow> Time \<Rightarrow> bool" where
  "After t u =
     (case (monotonic t, monotonic u) of
        (Some a, Some b) \<Rightarrow> a > b
      | _ \<Rightarrow> instant t > instant u)"

definition Before :: "Time \<Rightarrow> Time \<Rightarrow> bool" where
  "Before t u =
     (case (monotonic t, monotonic u) of
        (Some a, Some b) \<Rightarrow> a < b
      | _ \<Rightarrow> instant t < instant u)"

definition zeroTime :: Time where
  "zeroTime = \<lparr>instant = 0, monotonic = None, loc = None\<rparr>"

text \<open>The time decoded from UTC text, by its instant.\<close>

definition utc :: "int \<Rightarrow> Time" where
  "utc n = \<lparr>instant = n, monotonic = None, loc = None\<rparr>"

section \<open>Balancer: the scoring package\<close>

record ChallengeProgress =
  Key :: string
  SolvedAt :: Time

record TeamScore =
  Name :: string
  Score :: int
  Position :: int
  Challenges :: "ChallengeProgress list"
  LastUpdate :: Time
  InstanceReadiness :: bool

text \<open>
  \<open>bundle.JuiceShopChallenge\<close> is declared outside the scoring package; the score
  calculator reads only its \<open>Difficulty\<close>. Of \<open>appsv1.Deployment\<close> it reads the labels,
  the annotations and \<open>Status.ReadyReplicas\<close>.
\<close>

record JuiceShopChallenge =
  Difficulty :: int

record Deployment =
  Labels :: "string \<rightharpoonup> string"
  Annotations :: "string \<rightharpoonup> string"
  ReadyReplicas :: int

definition challengesAnnotation :: string where
  "challengesAnnotation = ''multi-juicer.owasp-juice.shop/challenges''"

definition continueCodeFindItAnnotation :: string where
  "continueCodeFindItAnnotation = ''multi-juicer.owasp-juice.shop/continueCodeFindIt''"

definition continueCodeFixItAnnotation :: string where
  "continueCodeFixItAnnotation = ''multi-juicer.owasp-juice.shop/continueCodeFixIt''"

text \<open>
  One iteration of the loop over the decoded annotation (lines 284 to 292): an entry
  whose key the catalog lacks is skipped, any other adds its difficulty times ten to
  the score and is appended to the challenge list.
\<close>

definition scoreStep ::
  "(string \<rightharpoonup> JuiceShopChallenge) \<Rightarrow> ChallengeProgress \<Rightarrow>
   int \<times> ChallengeProgress list \<Rightarrow> int \<times> ChallengeProgress list" where
  "scoreStep challengesMap challengeSolved acc =
     (case challengesMap (Key challengeSolved) of
        None \<Rightarrow> acc
      | Some challenge \<Rightarrow>
          (goInt (fst acc + goInt (Difficulty challenge * 10)), snd acc @ [challengeSolved]))"

text \<open>
  \<open>calculateScore\<close>. The decoder of the annotation (\<open>json.Unmarshal\<close> into a
  \<open>[]ChallengeProgress\<close>, \<open>None\<close> when it returns an error) and the clock
  (\<open>time.Now()\<close>) are parameters; the log lines are left out. The struct literals of the
  source leave \<open>Position\<close> at Go's zero value.
\<close>

definition calculateScore ::
  "(string \<Rightarrow> ChallengeProgress list option) \<Rightarrow> Time \<Rightarrow> Deployment \<Rightarrow>
   (string \<rightharpoonup> JuiceShopChallenge) \<Rightarrow> TeamScore" where
  "calculateScore unmarshal now teamDeployment challengesMap =
     (let solvedChallengesString = index (Annotations teamDeployment) challengesAnnotation;
          team = index (Labels teamDeployment) ''team'';
          zero = \<lparr>Name = team, Score = 0, Position = 0, Challenges = [],
                  LastUpdate = now, InstanceReadiness = (ReadyReplicas teamDeployment > 0)\<rparr>
      in if solvedChallengesString = [] then zero
         else
           (case unmarshal solvedChallengesString of
              None \<Rightarrow> zero
            | Some solvedChallenges \<Rightarrow>
                (let looped = fold (scoreStep challengesMap) solvedChallenges (0, []);
                     score1 = (if index (Annotations teamDeployment) continueCodeFindItAnnotation \<noteq> []
                               then goInt (fst looped + 50) else fst looped);
                     score2 = (if index (Annotations teamDeployment) continueCodeFixItAnnotation \<noteq> []
                               then goInt (score1 + 50) else score1)
                 in \<lparr>Name = team, Score = score2, Position = 0, Challenges = snd looped,
                     LastUpdate = now,
                     InstanceReadiness = (ReadyReplicas teamDeployment > 0)\<rparr>)))"

subsection \<open>Ranking\<close>

text \<open>
  \<open>getLatestChallengeSolve\<close> starts from Go's zero time and keeps the latest
  \<open>SolvedAt\<close> seen so far.
\<close>

definition getLatestChallengeSolve :: "ChallengeProgress list \<Rightarrow> Time" where
  "getLatestChallengeSolve challenges =
     fold (\<lambda>challenge maxTime.
             if After (SolvedAt challenge) maxTime then SolvedAt challenge else maxTime)
       challenges zeroTime"

text \<open>
  The comparison closure handed to \<open>sort.Slice\<close> (lines 335 to 345), as a function of
  the two elements it reads. The test \<open>iTime == jTime\<close> is Go's \<open>==\<close> on
  \<open>time.Time\<close>.
\<close>

definition sortLess :: "TeamScore \<Rightarrow> TeamScore \<Rightarrow> bool" where
  "sortLess a b =
     (if Score a = Score b then
        (let iTime = getLatestChallengeSolve (Challenges a);
             jTime = getLatestChallengeSolve (Challenges b)
         in if iTime = jTime then Name a < Name b else Before iTime jTime)
      else Score a > Score b)"

text \<open>
  \<open>sort.Slice\<close> belongs to Go's standard library. It promises a rearrangement of the
  slice in which no element is less than an earlier one, and no stability. The model is
  the insertion sort that moves an element past its neighbour only when the comparison
  says so, which is how the library sorts a short slice; \<open>sort_Slice_unique\<close> below
  shows that where the comparison is a strict order that distinguishes all elements,
  every rearrangement that keeps the promise is the same list, so the choice of
  algorithm cannot be observed there.
\<close>

fun insertLess :: "('a \<Rightarrow> 'a \<Rightarrow> bool) \<Rightarrow> 'a \<Rightarrow> 'a list \<Rightarrow> 'a list" where
  "insertLess lessFn x [] = [x]"
| "insertLess lessFn x (y # ys) =
     (if lessFn y x then y # insertLess lessFn x ys else x # y # ys)"

definition sort_Slice :: "('a \<Rightarrow> 'a \<Rightarrow> bool) \<Rightarrow> 'a list \<Rightarrow> 'a list" where
  "sort_Slice lessFn xs = foldr (insertLess lessFn) xs []"

text \<open>
  The position loop (lines 348 to 354): iteration \<open>i\<close> reads the scores at \<open>i\<close> and
  \<open>i - 1\<close>, may move \<open>position\<close> to \<open>i + 1\<close>, and stores it in element \<open>i\<close>. The
  index stays below the length of the slice, so \<open>i + 1\<close> does not overflow.
\<close>

definition positionStep :: "nat \<Rightarrow> int \<times> TeamScore list \<Rightarrow> int \<times> TeamScore list" where
  "positionStep i st =
     (let sortedTeamScores = snd st;
          position =
            (if i > 0 \<and> Score (sortedTeamScores ! i) < Score (sortedTeamScores ! (i - 1))
             then int i + 1 else fst st)
      in (position, sortedTeamScores[i := (sortedTeamScores ! i)\<lparr>Position := position\<rparr>]))"

definition calculatePositions :: "TeamScore list \<Rightarrow> TeamScore list" where
  "calculatePositions sortedTeamScores =
     snd (fold positionStep [0..<length sortedTeamScores] (1, sortedTeamScores))"

text \<open>
  \<open>sortTeamsByScoreAndCalculatePositions\<close>. Go visits the entries of a map in an
  order it does not specify, so the argument is the map as the list of its entries in
  the order of this run's iteration: the keys are distinct, and two lists stand for the
  same map when \<open>map_of\<close> agrees on them. The entries hold pointers; the model holds the
  values, which suffices because the service stores a fresh \<open>TeamScore\<close> under each
  name and the loop writes the same position to elements of equal score.
\<close>

definition sortTeamsByScoreAndCalculatePositions ::
  "(string \<times> TeamScore) list \<Rightarrow> TeamScore list" where
  "sortTeamsByScoreAndCalculatePositions teamScores =
     calculatePositions (sort_Slice sortLess (map snd teamScores))"

text \<open>
  The closed form of the position loop, used to state its invariant: the position the
  loop holds after iteration \<open>i\<close> over the sorted slice.
\<close>

fun positionAt :: "TeamScore list \<Rightarrow> nat \<Rightarrow> int" where
  "positionAt s 0 = 1"
| "positionAt s (Suc i) =
     (if Score (s ! Suc i) < Score (s ! i) then int (Suc i) + 1 else positionAt s i)"


text \<open>
  A score board of five teams whose solve times are decoded from UTC text, in two
  iteration orders of the same map.
\<close>

abbreviation (input) exampleTeam :: "string \<Rightarrow> int \<Rightarrow> int list \<Rightarrow> TeamScore" where
  "exampleTeam n s ts \<equiv>
     \<lparr>Name = n, Score = s, Position = 0,
      Challenges = map (\<lambda>t. \<lparr>Key = ''scoreBoardChallenge'', SolvedAt = utc t\<rparr>) ts,
      LastUpdate = utc 0, InstanceReadiness = True\<rparr>"

abbreviation (input) exampleScores :: "(string \<times> TeamScore) list" where
  "exampleScores \<equiv>
     [(''alpha'', exampleTeam ''alpha'' 30 [100, 200]),
      (''bravo'', exampleTeam ''bravo'' 50 [300, 50]),
      (''charlie'', exampleTeam ''charlie'' 30 [150]),
      (''delta'', exampleTeam ''delta'' 30 [200, 20]),
      (''echo'', exampleTeam ''echo'' 0 [])]"






subsection \<open>Long polling\<close>






section \<open>Progress watchdog\<close>

text \<open>
  The watchdog's \<open>ChallengeStatus\<close> has the fields \<open>Key\<close> and \<open>SolvedAt\<close>, both
  strings, and \<open>ChallengeProgressWithCodes\<close> has a field \<open>Challenges\<close>; the names are
  primed here because the scoring package uses the plain ones. Strings are compared as Go
  compares them, byte by byte.
\<close>

record ChallengeStatus =
  Key' :: string
  SolvedAt' :: string

record ChallengeProgressWithCodes =
  Challenges' :: "ChallengeStatus list"
  ContinueCodeFindIt :: string
  ContinueCodeFixIt :: string

record ProgressUpdateJobs =
  Team :: string
  LastChallengeProgress :: "ChallengeStatus list"

text \<open>
  Of the webhook body the handler reads \<open>Solution.Challenge\<close> and
  \<open>Solution.IssuedOn\<close>.
\<close>

record JuiceShopWebhook =
  Challenge :: string
  IssuedOn :: string

subsection \<open>The challenge id lookup and the continue code\<close>

text \<open>
  \<open>createChallengeIdLookup\<close>, from the decoded \<open>challenges.json\<close> on (a failure to read
  or decode the file panics before the loop). The watchdog's \<open>JuiceShopChallenge\<close> has
  the single field \<open>Key\<close>, so the decoded file is the list of its keys. The loop stores
  \<open>i + 1\<close> under the key at index \<open>i\<close> in the package's lookup table, which starts
  empty.
\<close>

definition createChallengeIdLookup :: "string list \<Rightarrow> (string \<rightharpoonup> int)" where
  "createChallengeIdLookup challenges =
     fold (\<lambda>(i, challengeKey) challengeIdLookup. challengeIdLookup(challengeKey \<mapsto> int i + 1))
       (enumerate 0 challenges) Map.empty"

text \<open>
  The loop of \<open>GenerateContinueCode\<close> that builds the id list (lines 336 to 340).
  Indexing a Go \<open>map[string]int\<close> with a key it does not hold yields 0.
\<close>

definition challengeIds :: "(string \<rightharpoonup> int) \<Rightarrow> ChallengeStatus list \<Rightarrow> int list" where
  "challengeIds challengeIdLookup challenges =
     fold (\<lambda>challenge ids.
             ids @ [case challengeIdLookup (Key' challenge) of None \<Rightarrow> 0 | Some n \<Rightarrow> n])
       challenges []"

text \<open>
  \<open>GenerateContinueCode\<close>. The encoder of the hashids library, set up with the salt,
  minimum length and alphabet of the source, is a parameter: \<open>Inl\<close> is its error.
\<close>

definition GenerateContinueCode ::
  "(int list \<Rightarrow> string + string) \<Rightarrow> (string \<rightharpoonup> int) \<Rightarrow> ChallengeStatus list \<Rightarrow>
   string + string" where
  "GenerateContinueCode Encode challengeIdLookup challenges =
     (case Encode (challengeIds challengeIdLookup challenges) of
        Inl err \<Rightarrow> Inl err
      | Inr continueCode \<Rightarrow> Inr continueCode)"

subsection \<open>The comparator\<close>

datatype UpdateState = UpdateCache | ApplyCode | NoOp

text \<open>
  Modelled from the spec: \<open>CompareChallengeStates\<close> and the \<open>UpdateState\<close> constants are
  declared in a file of the package that is not among the sources; the worker only
  calls the comparator, with the live progress first and the last-known progress
  second. Section 4.5 of the specification: the state is ApplyCode when the last-known
  progress contains solved challenges the live progress does not; NoOp when the two are
  identical; UpdateCache when the live progress is a superset of, or different from,
  the last-known one; and the comparison is by set membership of the solved keys, not
  by count.
\<close>

definition CompareChallengeStates ::
  "ChallengeStatus list \<Rightarrow> ChallengeStatus list \<Rightarrow> UpdateState" where
  "CompareChallengeStates currentSolvedChallenges lastSolvedChallenges =
     (if list_ex (\<lambda>l. Key' l \<notin> set (map Key' currentSolvedChallenges)) lastSolvedChallenges
      then ApplyCode
      else if list_all (\<lambda>c. Key' c \<in> set (map Key' lastSolvedChallenges))
                currentSolvedChallenges
      then NoOp
      else UpdateCache)"

subsection \<open>Persisting progress\<close>

text \<open>
  The cluster as the watchdog sees it: the annotations of each deployment, by deployment
  name. A \<open>Get\<close> of a name the map lacks is the failing call.
\<close>

type_synonym Cluster = "string \<rightharpoonup> (string \<rightharpoonup> string)"

text \<open>
  \<open>json.Unmarshal\<close> into a \<open>[]ChallengeStatus\<close> and \<open>json.Marshal\<close> of one are
  parameters. The callers only log a decoding error and go on with the slice as the
  decoder left it, so the decoder is modelled by that slice.
\<close>

definition decodeChallengeStatus ::
  "(string \<Rightarrow> ChallengeStatus list) \<Rightarrow> (string \<rightharpoonup> string) \<Rightarrow> ChallengeStatus list" where
  "decodeChallengeStatus unmarshal annotations =
     (let challengeStatusJson =
            (case annotations challengesAnnotation of None \<Rightarrow> ''[]'' | Some json \<Rightarrow> json)
      in unmarshal challengeStatusJson)"

text \<open>
  Modelled from the spec: \<open>PersistProgress\<close> is declared in a file of the package that
  is not among the sources. Sections 3 and 6 of the specification: the persisted state
  of an instance is the JSON array of its solved challenges and the two continue code
  strings, written back as the annotations of its deployment under the same keys they
  are read from. A deployment that does not exist cannot be updated; the call returns
  nothing, so the failure is not reported to the caller.
\<close>

definition PersistProgress ::
  "(ChallengeStatus list \<Rightarrow> string) \<Rightarrow> Cluster \<Rightarrow> string \<Rightarrow> ChallengeStatus list \<Rightarrow>
   string \<Rightarrow> string \<Rightarrow> Cluster" where
  "PersistProgress marshal cluster team solvedChallenges continueCodeFindIt continueCodeFixIt =
     (case cluster (''juiceshop-'' @ team) of
        None \<Rightarrow> cluster
      | Some annotations \<Rightarrow>
          cluster(''juiceshop-'' @ team \<mapsto>
            annotations(challengesAnnotation \<mapsto> marshal solvedChallenges,
                        continueCodeFindItAnnotation \<mapsto> continueCodeFindIt,
                        continueCodeFixItAnnotation \<mapsto> continueCodeFixIt)))"

text \<open>
  \<open>sort.Stable\<close> belongs to Go's standard library: it sorts by the \<open>Less\<close> method of
  the slice's type and keeps the order of elements of which neither is less than the
  other. The model is the stable insertion sort. The \<open>Less\<close> method of
  \<open>ChallengeStatuses\<close> is declared in a file of the package that is not among the
  sources, so the comparison is a parameter.
\<close>

definition sort_Stable :: "('a \<Rightarrow> 'a \<Rightarrow> bool) \<Rightarrow> 'a list \<Rightarrow> 'a list" where
  "sort_Stable lessFn xs = foldr (insertLess lessFn) xs []"

subsection \<open>The worker\<close>

text \<open>
  One job of \<open>workOnProgressUpdates\<close> (lines 228 to 289). Its inputs are the cluster,
  the job, and what the instance answers to \<open>getCurrentChallengeProgress\<close> before and
  after continue codes are applied (\<open>None\<close> for a failed fetch). Its results are the
  codes put to the instance's apply endpoint, each with its code type, in order, and the
  cluster afterwards. A continue code that cannot be generated is logged and not applied.
\<close>

definition workOnProgressUpdate ::
  "(ChallengeStatus list \<Rightarrow> string) \<Rightarrow> (int list \<Rightarrow> string + string) \<Rightarrow>
   (string \<rightharpoonup> int) \<Rightarrow> Cluster \<Rightarrow> ProgressUpdateJobs \<Rightarrow>
   ChallengeProgressWithCodes option \<Rightarrow> ChallengeProgressWithCodes option \<Rightarrow>
   (string \<times> string) list \<times> Cluster" where
  "workOnProgressUpdate marshal Encode challengeIdLookup cluster job fetched refetched =
     (let team = Team job;
          lastChallengeProgress = LastChallengeProgress job;
          lastFindItCode =
            (case cluster (''juiceshop-'' @ team) of
               None \<Rightarrow> []
             | Some annotations \<Rightarrow> index annotations continueCodeFindItAnnotation);
          lastFixItCode =
            (case cluster (''juiceshop-'' @ team) of
               None \<Rightarrow> []
             | Some annotations \<Rightarrow> index annotations continueCodeFixItAnnotation)
      in case fetched of
           None \<Rightarrow> ([], cluster)
         | Some currentProgress \<Rightarrow>
             (case CompareChallengeStates (Challenges' currentProgress) lastChallengeProgress of
                ApplyCode \<Rightarrow>
                  (let applied =
                         (case GenerateContinueCode Encode challengeIdLookup lastChallengeProgress of
                            Inl err \<Rightarrow> []
                          | Inr continueCode \<Rightarrow> [([], continueCode)])
                         @ (if lastFindItCode \<noteq> [] then [(''find-it'', lastFindItCode)] else [])
                         @ (if lastFixItCode \<noteq> [] then [(''fix-it'', lastFixItCode)] else [])
                   in case refetched of
                        None \<Rightarrow> (applied, cluster)
                      | Some currentProgress \<Rightarrow>
                          (applied,
                           PersistProgress marshal cluster team (Challenges' currentProgress)
                             (ContinueCodeFindIt currentProgress)
                             (ContinueCodeFixIt currentProgress)))
              | UpdateCache \<Rightarrow>
                  ([], PersistProgress marshal cluster team (Challenges' currentProgress)
                         (ContinueCodeFindIt currentProgress) (ContinueCodeFixIt currentProgress))
              | NoOp \<Rightarrow>
                  (if ContinueCodeFindIt currentProgress \<noteq> lastFindItCode \<or>
                      ContinueCodeFixIt currentProgress \<noteq> lastFixItCode
                   then ([], PersistProgress marshal cluster team (Challenges' currentProgress)
                               (ContinueCodeFindIt currentProgress)
                               (ContinueCodeFixIt currentProgress))
                   else ([], cluster))))"

subsection \<open>The webhook handler\<close>

text \<open>
  The handler of \<open>POST /team/{team}/webhook\<close>. Its inputs are the cluster, the team of
  the path, the decoded body (\<open>None\<close> when the body is not valid JSON) and the answer of
  \<open>GetCurrentChallengeProgress\<close> (\<open>None\<close> when it fails); its results are the status code
  of the response and the cluster afterwards. The log lines are left out. Besides the
  decoder and the encoder of the annotation, the \<open>Less\<close> method of
  \<open>ChallengeStatuses\<close> is a parameter.
\<close>

definition webhookHandler ::
  "(string \<Rightarrow> ChallengeStatus list) \<Rightarrow> (ChallengeStatus list \<Rightarrow> string) \<Rightarrow>
   (ChallengeStatus \<Rightarrow> ChallengeStatus \<Rightarrow> bool) \<Rightarrow> Cluster \<Rightarrow>
   string \<Rightarrow> JuiceShopWebhook option \<Rightarrow> ChallengeProgressWithCodes option \<Rightarrow>
   nat \<times> Cluster" where
  "webhookHandler unmarshal marshal Less cluster team body live =
     (case body of
        None \<Rightarrow> (400, cluster)
      | Some webhook \<Rightarrow>
          (case cluster (''juiceshop-'' @ team) of
             None \<Rightarrow> (500, cluster)
           | Some annotations \<Rightarrow>
               (let continueCodeFindIt = index annotations continueCodeFindItAnnotation;
                    continueCodeFixIt = index annotations continueCodeFixItAnnotation;
                    challengeStatus = decodeChallengeStatus unmarshal annotations
                in if prefix ''find-it-'' (Challenge webhook) then
                     (case live of
                        None \<Rightarrow> (500, cluster)
                      | Some currentProgress \<Rightarrow>
                          (200, PersistProgress marshal cluster team challengeStatus
                                  (ContinueCodeFindIt currentProgress) continueCodeFixIt))
                   else if prefix ''fix-it-'' (Challenge webhook) then
                     (case live of
                        None \<Rightarrow> (500, cluster)
                      | Some currentProgress \<Rightarrow>
                          (200, PersistProgress marshal cluster team challengeStatus
                                  continueCodeFindIt (ContinueCodeFixIt currentProgress)))
                   else if list_ex (\<lambda>status. Key' status = Challenge webhook) challengeStatus
                   then (200, cluster)
                   else
                     (200, PersistProgress marshal cluster team
                             (sort_Stable Less (challengeStatus @
                                [\<lparr>Key' = Challenge webhook, SolvedAt' = IssuedOn webhook\<rparr>]))
                             continueCodeFindIt continueCodeFixIt))))"

subsection \<open>The scheduler\<close>

text \<open>
  One cycle of \<open>createProgressUpdateJobs\<close> (lines 89 to 114), given the answer of the
  \<open>List\<close> call: \<open>Inl\<close> is its error, and the cycle then panics with the error's
  message; otherwise every instance with exactly one ready replica yields a job, which
  is sent on the channel.
\<close>

definition cycleJobs ::
  "(string \<Rightarrow> ChallengeStatus list) \<Rightarrow> Deployment list \<Rightarrow> ProgressUpdateJobs list" where
  "cycleJobs unmarshal items =
     concat (map (\<lambda>instance.
        if ReadyReplicas instance \<noteq> 1 then []
        else [\<lparr>Team = index (Labels instance) ''team'',
               LastChallengeProgress =
                 unmarshal (index (Annotations instance) challengesAnnotation)\<rparr>]) items)"

text \<open>
  \<open>createProgressUpdateJobs\<close>. The loop has no exit; it is run here over the answers
  of the \<open>List\<close> calls of as many cycles as are observed, and the sleep between two
  cycles is left out. The result is the jobs sent so far, in order, and whether the loop
  is still running or has ended in a panic, with the panic's message; an unrecovered
  panic in a goroutine ends the process.
\<close>

datatype Scheduler = StillRunning | Panicked string

fun createProgressUpdateJobs ::
  "(string \<Rightarrow> ChallengeStatus list) \<Rightarrow> (string + Deployment list) list \<Rightarrow>
   ProgressUpdateJobs list \<times> Scheduler" where
  "createProgressUpdateJobs unmarshal [] = ([], StillRunning)"
| "createProgressUpdateJobs unmarshal (Inl err # later) = ([], Panicked err)"
| "createProgressUpdateJobs unmarshal (Inr juiceShops # later) =
     (let rest = createProgressUpdateJobs unmarshal later
      in (cycleJobs unmarshal juiceShops @ fst rest, snd rest))"

subsection \<open>Example data\<close>

text \<open>
  An encoder of the annotation that writes the JSON text of any list of statuses whose
  strings need no escaping, and a decoder that is its inverse on the four lists the
  examples meet (the empty list among them) and yields the empty list on any other
  text. The comparison of the examples orders the statuses by their timestamps.
\<close>

abbreviation (input) scoreBoardSolved :: ChallengeStatus where
  "scoreBoardSolved \<equiv>
     \<lparr>Key' = ''scoreBoardChallenge'', SolvedAt' = ''2024-01-01T10:00:00.000Z''\<rparr>"

abbreviation (input) loginAdminSolved :: ChallengeStatus where
  "loginAdminSolved \<equiv>
     \<lparr>Key' = ''loginAdminChallenge'', SolvedAt' = ''2024-01-01T11:30:00.000Z''\<rparr>"

abbreviation (input) findItSolved :: ChallengeStatus where
  "findItSolved \<equiv>
     \<lparr>Key' = ''find-it-scoreBoardChallenge'', SolvedAt' = ''2024-01-01T10:05:00.000Z''\<rparr>"

fun joinWith :: "string \<Rightarrow> string list \<Rightarrow> string" where
  "joinWith separator [] = []"
| "joinWith separator [x] = x"
| "joinWith separator (x # y # ys) = x @ separator @ joinWith separator (y # ys)"

definition exampleMarshal :: "ChallengeStatus list \<Rightarrow> string" where
  \<open>exampleMarshal solved =
     ''['' @ joinWith '',''
       (map (\<lambda>c. ''{"key":"'' @ Key' c @ ''","solvedAt":"'' @ SolvedAt' c @ ''"}'') solved)
     @ '']''\<close>

abbreviation (input) exampleJson :: string where
  \<open>exampleJson \<equiv>
     ''[{"key":"scoreBoardChallenge","solvedAt":"2024-01-01T10:00:00.000Z"}]''\<close>

definition exampleUnmarshal :: "string \<Rightarrow> ChallengeStatus list" where
  "exampleUnmarshal s =
     (if s = exampleMarshal [scoreBoardSolved] then [scoreBoardSolved]
      else if s = exampleMarshal [scoreBoardSolved, loginAdminSolved]
      then [scoreBoardSolved, loginAdminSolved]
      else if s = exampleMarshal [findItSolved] then [findItSolved]
      else [])"

abbreviation (input) exampleLess :: "ChallengeStatus \<Rightarrow> ChallengeStatus \<Rightarrow> bool" where
  "exampleLess \<equiv> (\<lambda>a b. SolvedAt' a < SolvedAt' b)"

text \<open>
  A deployment without annotations, webhooks for a regular and for the two bonus
  categories, an instance's live progress, and a deployment with persisted progress.
\<close>

abbreviation (input) freshCluster :: Cluster where
  "freshCluster \<equiv> [''juiceshop-owasp'' \<mapsto> Map.empty]"

abbreviation (input) scoreBoardWebhook :: JuiceShopWebhook where
  "scoreBoardWebhook \<equiv>
     \<lparr>Challenge = ''scoreBoardChallenge'', IssuedOn = ''2024-01-01T10:00:00.000Z''\<rparr>"

abbreviation (input) loginAdminWebhook :: JuiceShopWebhook where
  "loginAdminWebhook \<equiv>
     \<lparr>Challenge = ''loginAdminChallenge'', IssuedOn = ''2024-01-01T11:30:00.000Z''\<rparr>"

abbreviation (input) findItWebhook :: JuiceShopWebhook where
  "findItWebhook \<equiv>
     \<lparr>Challenge = ''find-it-scoreBoardChallenge'', IssuedOn = ''2024-01-01T10:05:00.000Z''\<rparr>"

abbreviation (input) fixItWebhook :: JuiceShopWebhook where
  "fixItWebhook \<equiv>
     \<lparr>Challenge = ''fix-it-scoreBoardChallenge'', IssuedOn = ''2024-01-01T10:07:00.000Z''\<rparr>"

abbreviation (input) liveProgress :: ChallengeProgressWithCodes where
  "liveProgress \<equiv>
     \<lparr>Challenges' = [scoreBoardSolved], ContinueCodeFindIt = ''newFindItCode'',
      ContinueCodeFixIt = ''newFixItCode''\<rparr>"

abbreviation (input) persistedAnnotations :: "string \<rightharpoonup> string" where
  "persistedAnnotations \<equiv>
     [challengesAnnotation \<mapsto> exampleJson,
      continueCodeFindItAnnotation \<mapsto> ''oldFindItCode'',
      continueCodeFixItAnnotation \<mapsto> ''oldFixItCode'',
      ''multi-juicer.owasp-juice.shop/lastRequest'' \<mapsto> ''1704103200000'']"

abbreviation (input) persistedCluster :: Cluster where
  "persistedCluster \<equiv> [''juiceshop-owasp'' \<mapsto> persistedAnnotations]"

text \<open>Two instances as the scheduler lists them.\<close>

abbreviation (input) readyInstance :: Deployment where
  "readyInstance \<equiv>
     \<lparr>Labels = [''team'' \<mapsto> ''owasp''], Annotations = persistedAnnotations,
      ReadyReplicas = 1\<rparr>"

abbreviation (input) startingInstance :: Deployment where
  "startingInstance \<equiv>
     \<lparr>Labels = [''team'' \<mapsto> ''juicers''], Annotations = Map.empty, ReadyReplicas = 0\<rparr>"


section \<open>Properties of the score calculator\<close>

lemma goInt_id: "- (2 ^ 63) \<le> x \<Longrightarrow> x < 2 ^ 63 \<Longrightarrow> goInt x = x"
  by (simp add: goInt_def)

lemma goInt_0: "goInt 0 = 0"
  by (simp add: goInt_def)

lemma goInt_add_right: "goInt (a + goInt b) = goInt (a + b)"
  by (simp add: goInt_def algebra_simps mod_simps)

lemma goInt_add_left: "goInt (goInt a + b) = goInt (a + b)"
  by (simp add: goInt_def algebra_simps mod_simps)

text \<open>
  The loop invariant: started from a wrapped partial sum, the loop ends with the wrapped
  sum of the points of all entries, and keeps the recognised entries in order.
\<close>

lemma fold_scoreStep:
  "fold (scoreStep cm) cs (goInt s, acc) =
     (goInt (s + (\<Sum>c\<leftarrow>cs. case cm (Key c) of None \<Rightarrow> 0
                                | Some challenge \<Rightarrow> Difficulty challenge * 10)),
      acc @ filter (\<lambda>c. cm (Key c) \<noteq> None) cs)"
proof (induction cs arbitrary: s acc)
  case Nil
  then show ?case by simp
next
  case (Cons c cs)
  show ?case
  proof (cases "cm (Key c)")
    case None
    then show ?thesis using Cons.IH [of s acc]
      by (simp add: scoreStep_def)
  next
    case (Some ch)
    have "fold (scoreStep cm) (c # cs) (goInt s, acc) =
          fold (scoreStep cm) cs (goInt (s + Difficulty ch * 10), acc @ [c])"
      using Some by (simp add: scoreStep_def goInt_add_right goInt_add_left)
    then show ?thesis using Some Cons.IH [of "s + Difficulty ch * 10" "acc @ [c]"]
      by (simp add: add.assoc)
  qed
qed

lemma fold_scoreStep_start:
  "fold (scoreStep cm) cs (0, []) =
     (goInt (\<Sum>c\<leftarrow>cs. case cm (Key c) of None \<Rightarrow> 0
                          | Some challenge \<Rightarrow> Difficulty challenge * 10),
      filter (\<lambda>c. cm (Key c) \<noteq> None) cs)"
  using fold_scoreStep [of cm cs 0 "[]"] by (simp add: goInt_0)

text \<open>
  Claim C1. When the solved-challenge annotation is non-empty and decodes to a list, the
  score is the sum, over the decoded entries, of ten times the catalog difficulty of the
  entry's key (nothing for a key the catalog lacks), plus 50 when the FindIt continue
  code annotation is non-empty and plus 50 when the FixIt one is; the sum is taken in
  Go's \<open>int\<close>, so it is the exact sum whenever that lies in the 64-bit range.
\<close>

theorem calculateScore_is_weighted_sum_plus_bonuses:
  fixes d :: Deployment
    and unmarshal :: "string \<Rightarrow> ChallengeProgress list option"
    and solved :: "ChallengeProgress list"
    and cm :: "string \<rightharpoonup> JuiceShopChallenge"
    and now :: Time
  assumes "index (Annotations d) challengesAnnotation \<noteq> []"
    and "unmarshal (index (Annotations d) challengesAnnotation) = Some solved"
  defines "exact \<equiv>
      (\<Sum>c\<leftarrow>solved. case cm (Key c) of None \<Rightarrow> 0
                       | Some challenge \<Rightarrow> Difficulty challenge * 10)
      + (if index (Annotations d) continueCodeFindItAnnotation \<noteq> [] then 50 else 0)
      + (if index (Annotations d) continueCodeFixItAnnotation \<noteq> [] then 50 else 0)"
  shows "Score (calculateScore unmarshal now d cm) = goInt exact \<and>
         (- (2 ^ 63) \<le> exact \<and> exact < 2 ^ 63 \<longrightarrow>
            Score (calculateScore unmarshal now d cm) = exact)"
proof -
  have "Score (calculateScore unmarshal now d cm) = goInt exact"
    using assms(1,2) unfolding exact_def calculateScore_def Let_def
    by (simp add: fold_scoreStep_start goInt_add_left)
  then show ?thesis
    by (simp add: goInt_id)
qed

text \<open>
  The example of the specification: with a catalog that gives challenge X10 the
  difficulty 3, an instance that solved only X10 scores 30, and 80 once one bonus
  continue code is present.
\<close>

theorem calculateScore_is_weighted_sum_plus_bonuses_witness:
  \<open>Score (calculateScore
      (\<lambda>s. if s = ''[{"key":"X10","solvedAt":"2024-01-01T00:00:00Z"}]''
            then Some [\<lparr>Key = ''X10'', SolvedAt = utc 63839664000000000000\<rparr>] else None)
      (utc 0)
      \<lparr>Labels = [''team'' \<mapsto> ''owasp''],
       Annotations = [challengesAnnotation \<mapsto>
         ''[{"key":"X10","solvedAt":"2024-01-01T00:00:00Z"}]''],
       ReadyReplicas = 1\<rparr>
      [''X10'' \<mapsto> \<lparr>Difficulty = 3\<rparr>]) = 30 \<and>
   Score (calculateScore
      (\<lambda>s. if s = ''[{"key":"X10","solvedAt":"2024-01-01T00:00:00Z"}]''
            then Some [\<lparr>Key = ''X10'', SolvedAt = utc 63839664000000000000\<rparr>] else None)
      (utc 0)
      \<lparr>Labels = [''team'' \<mapsto> ''owasp''],
       Annotations = [challengesAnnotation \<mapsto>
         ''[{"key":"X10","solvedAt":"2024-01-01T00:00:00Z"}]'',
         continueCodeFindItAnnotation \<mapsto> ''yXjv6Z5jWJnzD6a3YvmwPRXK7roAyz''],
       ReadyReplicas = 1\<rparr>
      [''X10'' \<mapsto> \<lparr>Difficulty = 3\<rparr>]) = 80\<close>
  using
    calculateScore_is_weighted_sum_plus_bonuses
      [where d = "\<lparr>Labels = [''team'' \<mapsto> ''owasp''],
            Annotations = [challengesAnnotation \<mapsto>
              ''[{\"key\":\"X10\",\"solvedAt\":\"2024-01-01T00:00:00Z\"}]''],
            ReadyReplicas = 1\<rparr>"
          and unmarshal = "\<lambda>s. if s = ''[{\"key\":\"X10\",\"solvedAt\":\"2024-01-01T00:00:00Z\"}]''
            then Some [\<lparr>Key = ''X10'', SolvedAt = utc 63839664000000000000\<rparr>] else None"
          and solved = "[\<lparr>Key = ''X10'', SolvedAt = utc 63839664000000000000\<rparr>]"
          and cm = "[''X10'' \<mapsto> \<lparr>Difficulty = 3\<rparr>]" and now = "utc 0"]
    calculateScore_is_weighted_sum_plus_bonuses
      [where d = "\<lparr>Labels = [''team'' \<mapsto> ''owasp''],
            Annotations = [challengesAnnotation \<mapsto>
              ''[{\"key\":\"X10\",\"solvedAt\":\"2024-01-01T00:00:00Z\"}]'',
              continueCodeFindItAnnotation \<mapsto> ''yXjv6Z5jWJnzD6a3YvmwPRXK7roAyz''],
            ReadyReplicas = 1\<rparr>"
          and unmarshal = "\<lambda>s. if s = ''[{\"key\":\"X10\",\"solvedAt\":\"2024-01-01T00:00:00Z\"}]''
            then Some [\<lparr>Key = ''X10'', SolvedAt = utc 63839664000000000000\<rparr>] else None"
          and solved = "[\<lparr>Key = ''X10'', SolvedAt = utc 63839664000000000000\<rparr>]"
          and cm = "[''X10'' \<mapsto> \<lparr>Difficulty = 3\<rparr>]" and now = "utc 0"]
  by (simp add: index_def challengesAnnotation_def continueCodeFindItAnnotation_def
      continueCodeFixItAnnotation_def)

text \<open>
  Claim C7. When the solved-challenge annotation is absent or empty, or its decoding
  returns an error, the calculator returns the team's name with score 0, no challenges
  and the readiness flag "ready replicas > 0". The function has no failing branch.
\<close>

theorem calculateScore_unreadable_annotation_is_zero:
  assumes "index (Annotations d) challengesAnnotation = [] \<or>
           unmarshal (index (Annotations d) challengesAnnotation) = None"
  shows "calculateScore unmarshal now d cm =
           \<lparr>Name = index (Labels d) ''team'', Score = 0, Position = 0, Challenges = [],
            LastUpdate = now, InstanceReadiness = (ReadyReplicas d > 0)\<rparr>"
  using assms unfolding calculateScore_def Let_def by auto

theorem calculateScore_unreadable_annotation_is_zero_witness:
  "calculateScore (\<lambda>s. None) (utc 7)
      \<lparr>Labels = [''team'' \<mapsto> ''owasp''], Annotations = Map.empty, ReadyReplicas = 2\<rparr>
      [''X10'' \<mapsto> \<lparr>Difficulty = 3\<rparr>] =
     \<lparr>Name = ''owasp'', Score = 0, Position = 0, Challenges = [], LastUpdate = utc 7,
      InstanceReadiness = True\<rparr> \<and>
   calculateScore (\<lambda>s. None) (utc 7)
      \<lparr>Labels = [''team'' \<mapsto> ''owasp''],
       Annotations = [challengesAnnotation \<mapsto> ''not json'',
         continueCodeFixItAnnotation \<mapsto> ''yXjv6Z5jWJnzD6a3YvmwPRXK7roAyz''],
       ReadyReplicas = 0\<rparr>
      [''X10'' \<mapsto> \<lparr>Difficulty = 3\<rparr>] =
     \<lparr>Name = ''owasp'', Score = 0, Position = 0, Challenges = [], LastUpdate = utc 7,
      InstanceReadiness = False\<rparr>"
  using
    calculateScore_unreadable_annotation_is_zero
      [where d = "\<lparr>Labels = [''team'' \<mapsto> ''owasp''], Annotations = Map.empty,
            ReadyReplicas = 2\<rparr>"
          and unmarshal = "\<lambda>s. None" and now = "utc 7"
          and cm = "[''X10'' \<mapsto> \<lparr>Difficulty = 3\<rparr>]"]
    calculateScore_unreadable_annotation_is_zero
      [where d = "\<lparr>Labels = [''team'' \<mapsto> ''owasp''],
            Annotations = [challengesAnnotation \<mapsto> ''not json'',
              continueCodeFixItAnnotation \<mapsto> ''yXjv6Z5jWJnzD6a3YvmwPRXK7roAyz''],
            ReadyReplicas = 0\<rparr>"
          and unmarshal = "\<lambda>s. None" and now = "utc 7"
          and cm = "[''X10'' \<mapsto> \<lparr>Difficulty = 3\<rparr>]"]
  by (simp add: index_def challengesAnnotation_def continueCodeFixItAnnotation_def)

section \<open>Properties of the ranking\<close>

lemma mset_insertLess: "mset (insertLess lessFn x ys) = add_mset x (mset ys)"
  by (induction ys) auto

lemma mset_sort_Slice: "mset (sort_Slice lessFn xs) = mset xs"
  by (induction xs) (auto simp: sort_Slice_def mset_insertLess)

lemma set_insertLess: "set (insertLess lessFn x ys) = insert x (set ys)"
  by (induction ys) auto

lemma set_sort_Slice [simp]: "set (sort_Slice lessFn xs) = set xs"
  using mset_sort_Slice [of lessFn xs] by (rule mset_eq_setD)

lemma length_sort_Slice [simp]: "length (sort_Slice lessFn xs) = length xs"
  using mset_sort_Slice [of lessFn xs] by (metis size_mset)

lemma sort_Slice_Cons: "sort_Slice lessFn (x # xs) = insertLess lessFn x (sort_Slice lessFn xs)"
  by (simp add: sort_Slice_def)

lemma sorted_insertLess:
  fixes f :: "'a \<Rightarrow> 'k::linorder"
  assumes "\<And>a b. f a < f b \<Longrightarrow> lessFn a b" and "\<And>a b. lessFn a b \<Longrightarrow> f a \<le> f b"
  shows "sorted (map f ys) \<Longrightarrow> sorted (map f (insertLess lessFn x ys))"
proof (induction ys)
  case Nil
  then show ?case by simp
next
  case (Cons y ys)
  show ?case
  proof (cases "lessFn y x")
    case True
    then have "f y \<le> f x" by (rule assms(2))
    then show ?thesis using True Cons by (auto simp: set_insertLess)
  next
    case False
    then have "\<not> f y < f x" using assms(1) [of y x] by blast
    then have "f x \<le> f y" by simp
    then show ?thesis using False Cons.prems by auto
  qed
qed

lemma sorted_sort_Slice_weak:
  fixes f :: "'a \<Rightarrow> 'k::linorder"
  assumes "\<And>a b. f a < f b \<Longrightarrow> lessFn a b" and "\<And>a b. lessFn a b \<Longrightarrow> f a \<le> f b"
  shows "sorted (map f (sort_Slice lessFn xs))"
proof (induction xs)
  case Nil
  then show ?case by (simp add: sort_Slice_def)
next
  case (Cons x xs)
  have "sorted (map f (insertLess lessFn x (sort_Slice lessFn xs)))"
    using assms Cons by (intro sorted_insertLess) auto
  then show ?case by (simp add: sort_Slice_Cons)
qed











lemma fold_positionStep:
  "n \<le> length s \<Longrightarrow>
   fold positionStep [0..<n] (1, s) =
     ((if n = 0 then 1 else positionAt s (n - 1)),
      map (\<lambda>k. if k < n then (s ! k)\<lparr>Position := positionAt s k\<rparr> else s ! k) [0..<length s])"
proof (induction n)
  case 0
  then show ?case by (simp add: map_nth)
next
  case (Suc n)
  let ?L = "map (\<lambda>k. if k < n then (s ! k)\<lparr>Position := positionAt s k\<rparr> else s ! k) [0..<length s]"
  let ?p = "if n = 0 then 1 else positionAt s (n - 1)"
  have n: "n < length s" using Suc.prems by simp
  have prev: "fold positionStep [0..<n] (1, s) = (?p, ?L)"
    using Suc.IH n by simp
  have pos: "(if n > 0 \<and> Score (?L ! n) < Score (?L ! (n - 1)) then int n + 1 else ?p)
             = positionAt s n"
  proof (cases n)
    case 0
    then show ?thesis by simp
  next
    case (Suc m)
    then show ?thesis using n by simp
  qed
  have upd: "?L[n := (?L ! n)\<lparr>Position := positionAt s n\<rparr>] =
             map (\<lambda>k. if k < Suc n then (s ! k)\<lparr>Position := positionAt s k\<rparr> else s ! k) [0..<length s]"
    using n by (intro nth_equalityI) (auto simp: nth_list_update less_Suc_eq)
  have "fold positionStep [0..<Suc n] (1, s) = positionStep n (?p, ?L)"
    using prev by simp
  also have "\<dots> = (positionAt s n, ?L[n := (?L ! n)\<lparr>Position := positionAt s n\<rparr>])"
    unfolding positionStep_def Let_def fst_conv snd_conv pos ..
  finally show ?case using upd by simp
qed

lemma calculatePositions_closed:
  "calculatePositions s = map (\<lambda>k. (s ! k)\<lparr>Position := positionAt s k\<rparr>) [0..<length s]"
  unfolding calculatePositions_def using fold_positionStep [of "length s" s]
  by (auto intro: nth_equalityI)

lemma length_calculatePositions [simp]: "length (calculatePositions s) = length s"
  by (simp add: calculatePositions_closed)

lemma nth_calculatePositions:
  "k < length s \<Longrightarrow> calculatePositions s ! k = (s ! k)\<lparr>Position := positionAt s k\<rparr>"
  by (simp add: calculatePositions_closed)

lemma positionAt_le: "positionAt s k \<le> int k + 1"
  by (induction k) auto

lemma positionAt_Suc_mono: "positionAt s k \<le> positionAt s (Suc k)"
  using positionAt_le [of s k] by simp

lemma positionAt_mono: "i \<le> j \<Longrightarrow> positionAt s i \<le> positionAt s j"
  by (rule lift_Suc_mono_le [of "positionAt s"]) (simp_all add: positionAt_Suc_mono del: positionAt.simps)

lemma positionAt_equal_scores:
  assumes desc: "\<forall>i j. i < j \<and> j < length s \<longrightarrow> Score (s ! j) \<le> Score (s ! i)"
  shows "i \<le> j \<Longrightarrow> j < length s \<Longrightarrow> Score (s ! i) = Score (s ! j) \<Longrightarrow>
         positionAt s j = positionAt s i"
proof (induction j)
  case 0
  then show ?case by simp
next
  case (Suc j)
  show ?case
  proof (cases "i = Suc j")
    case True
    then show ?thesis by simp
  next
    case False
    then have ij: "i \<le> j" using Suc.prems(1) by simp
    have a: "Score (s ! Suc j) \<le> Score (s ! j)" using desc Suc.prems(2) by simp
    have b: "Score (s ! j) \<le> Score (s ! i)"
      using desc ij Suc.prems(2) by (cases "i = j") auto
    have eq: "Score (s ! j) = Score (s ! i)" using a b Suc.prems(3) by simp
    then have "positionAt s (Suc j) = positionAt s j" using Suc.prems(3) by simp
    then show ?thesis using Suc.IH ij Suc.prems(2) eq by simp
  qed
qed


lemma sort_Slice_scores_descending:
  assumes "i < j" "j < length (sort_Slice sortLess xs)"
  shows "Score (sort_Slice sortLess xs ! j) \<le> Score (sort_Slice sortLess xs ! i)"
proof -
  let ?s = "sort_Slice sortLess xs"
  have "sorted (map (\<lambda>t::TeamScore. - Score t) ?s)"
  proof (rule sorted_sort_Slice_weak)
    fix a b :: TeamScore assume "- Score a < - Score b"
    then show "sortLess a b" by (simp add: sortLess_def)
  next
    fix a b :: TeamScore assume "sortLess a b"
    then show "- Score a \<le> - Score b" by (cases "Score a = Score b") (simp_all add: sortLess_def)
  qed
  then have "map (\<lambda>t. - Score t) ?s ! i \<le> map (\<lambda>t. - Score t) ?s ! j"
    using assms by (simp add: sorted_iff_nth_mono_less del: nth_map)
  then show ?thesis using assms by simp
qed

lemma sortTeams_nth:
  "k < length (sort_Slice sortLess (map snd es)) \<Longrightarrow>
   sortTeamsByScoreAndCalculatePositions es ! k =
     (sort_Slice sortLess (map snd es) ! k)
       \<lparr>Position := positionAt (sort_Slice sortLess (map snd es)) k\<rparr>"
  by (simp add: sortTeamsByScoreAndCalculatePositions_def nth_calculatePositions)


lemma length_sortTeams [simp]:
  "length (sortTeamsByScoreAndCalculatePositions es) = length es"
  by (simp add: sortTeamsByScoreAndCalculatePositions_def)


text \<open>
  Claim C3. In the ranked output the first element has position 1; a later element has
  its 1-based index as position exactly when its score differs from the score of the
  element before it, and the position of that element otherwise. Hence positions never
  decrease along the output, and elements of equal score have equal positions.
\<close>

theorem positions_follow_competition_ranking:
  fixes teamScores :: "(string \<times> TeamScore) list"
  defines "out \<equiv> sortTeamsByScoreAndCalculatePositions teamScores"
  shows "(out \<noteq> [] \<longrightarrow> Position (out ! 0) = 1) \<and>
         (\<forall>i. 0 < i \<and> i < length out \<longrightarrow>
            (Position (out ! i) = int i + 1 \<longleftrightarrow> Score (out ! i) \<noteq> Score (out ! (i - 1))) \<and>
            (Score (out ! i) = Score (out ! (i - 1)) \<longrightarrow>
               Position (out ! i) = Position (out ! (i - 1)))) \<and>
         (\<forall>i j. i \<le> j \<and> j < length out \<longrightarrow> Position (out ! i) \<le> Position (out ! j)) \<and>
         (\<forall>i j. i < length out \<and> j < length out \<and> Score (out ! i) = Score (out ! j) \<longrightarrow>
            Position (out ! i) = Position (out ! j))"
proof -
  let ?s = "sort_Slice sortLess (map snd teamScores)"
  have len: "length out = length ?s" by (simp add: out_def)
  have nth: "\<And>k. k < length ?s \<Longrightarrow> out ! k = (?s ! k)\<lparr>Position := positionAt ?s k\<rparr>"
    unfolding out_def by (rule sortTeams_nth)
  have pos: "\<And>k. k < length ?s \<Longrightarrow> Position (out ! k) = positionAt ?s k"
    by (simp add: nth)
  have sc: "\<And>k. k < length ?s \<Longrightarrow> Score (out ! k) = Score (?s ! k)"
    by (simp add: nth)
  have desc: "\<forall>i j. i < j \<and> j < length ?s \<longrightarrow> Score (?s ! j) \<le> Score (?s ! i)"
    using sort_Slice_scores_descending by blast
  have first: "out \<noteq> [] \<longrightarrow> Position (out ! 0) = 1"
  proof
    assume "out \<noteq> []"
    then have "0 < length ?s" using len by (cases out) auto
    then show "Position (out ! 0) = 1" using pos [of 0] by simp
  qed
  have step: "\<forall>i. 0 < i \<and> i < length out \<longrightarrow>
            (Position (out ! i) = int i + 1 \<longleftrightarrow> Score (out ! i) \<noteq> Score (out ! (i - 1))) \<and>
            (Score (out ! i) = Score (out ! (i - 1)) \<longrightarrow>
               Position (out ! i) = Position (out ! (i - 1)))"
  proof (intro allI impI)
    fix i assume i: "0 < i \<and> i < length out"
    then obtain m where m: "i = Suc m" by (cases i) auto
    have lt: "Suc m < length ?s" "m < length ?s" using i m len by auto
    have le: "Score (?s ! Suc m) \<le> Score (?s ! m)" using desc lt by simp
    show "(Position (out ! i) = int i + 1 \<longleftrightarrow> Score (out ! i) \<noteq> Score (out ! (i - 1))) \<and>
          (Score (out ! i) = Score (out ! (i - 1)) \<longrightarrow> Position (out ! i) = Position (out ! (i - 1)))"
      using le lt positionAt_le [of ?s m] by (simp add: m pos sc)
  qed
  have mono: "\<forall>i j. i \<le> j \<and> j < length out \<longrightarrow> Position (out ! i) \<le> Position (out ! j)"
    using len by (simp add: pos positionAt_mono)
  have ties: "\<forall>i j. i < length out \<and> j < length out \<and> Score (out ! i) = Score (out ! j) \<longrightarrow>
            Position (out ! i) = Position (out ! j)"
  proof (intro allI impI)
    fix i j assume h: "i < length out \<and> j < length out \<and> Score (out ! i) = Score (out ! j)"
    then have lt: "i < length ?s" "j < length ?s" and eq: "Score (?s ! i) = Score (?s ! j)"
      using len sc by auto
    have "positionAt ?s i = positionAt ?s j"
    proof (cases "i \<le> j")
      case True
      then show ?thesis using positionAt_equal_scores [OF desc True lt(2) eq] by simp
    next
      case False
      then have "j \<le> i" by simp
      then show ?thesis using positionAt_equal_scores [OF desc _ lt(1), of j] eq by simp
    qed
    then show "Position (out ! i) = Position (out ! j)" using lt by (simp add: pos)
  qed
  from first step mono ties show ?thesis by blast
qed









text \<open>The definitions that evaluate the ranking of a concrete score board.\<close>

lemmas rank_defs = sortTeamsByScoreAndCalculatePositions_def calculatePositions_def sort_Slice_def
  positionStep_def sortLess_def getLatestChallengeSolve_def After_def Before_def zeroTime_def
  utc_def upt_rec



theorem positions_follow_competition_ranking_witness:
  "sortTeamsByScoreAndCalculatePositions exampleScores \<noteq> [] \<and>
   Position (sortTeamsByScoreAndCalculatePositions exampleScores ! 0) = 1 \<and>
   Score (sortTeamsByScoreAndCalculatePositions exampleScores ! 1) \<noteq>
     Score (sortTeamsByScoreAndCalculatePositions exampleScores ! 0) \<and>
   Position (sortTeamsByScoreAndCalculatePositions exampleScores ! 1) = 2 \<and>
   Score (sortTeamsByScoreAndCalculatePositions exampleScores ! 3) =
     Score (sortTeamsByScoreAndCalculatePositions exampleScores ! 2) \<and>
   Position (sortTeamsByScoreAndCalculatePositions exampleScores ! 3) =
     Position (sortTeamsByScoreAndCalculatePositions exampleScores ! 2) \<and>
   map Score (sortTeamsByScoreAndCalculatePositions exampleScores) = [50, 30, 30, 30, 0] \<and>
   map Position (sortTeamsByScoreAndCalculatePositions exampleScores) = [1, 2, 2, 2, 5]"
proof -
  define out where "out = sortTeamsByScoreAndCalculatePositions exampleScores"
  have scores: "map Score out = [50, 30, 30, 30, 0]"
    unfolding out_def by (simp add: rank_defs)
  have positions: "map Position out = [1, 2, 2, 2, 5]"
    unfolding out_def by (simp add: rank_defs)
  have len: "length out = 5" unfolding out_def by simp
  note c = positions_follow_competition_ranking [of exampleScores, folded out_def]
  have ne: "out \<noteq> []" using scores by auto
  have p0: "Position (out ! 0) = 1" using c [THEN conjunct1] ne by simp
  have s1: "Score (out ! 1) \<noteq> Score (out ! 0)"
    using scores len nth_map [of 1 out Score] nth_map [of 0 out Score] by simp
  have s3: "Score (out ! 3) = Score (out ! 2)"
    using scores len nth_map [of 3 out Score] nth_map [of 2 out Score] by simp
  have p1: "Position (out ! 1) = 2"
    using c [THEN conjunct2, THEN conjunct1, rule_format, of 1] s1 len by simp
  have p3: "Position (out ! 3) = Position (out ! 2)"
    using c [THEN conjunct2, THEN conjunct1, rule_format, of 3] s3 len by simp
  from ne p0 s1 p1 s3 p3 scores positions show ?thesis unfolding out_def by blast
qed

section \<open>Properties of the long poll\<close>







section \<open>Properties of the continue code\<close>

lemma fold_append_map: "fold (\<lambda>c ids. ids @ [g c]) cs acc = acc @ map g cs"
  by (induction cs arbitrary: acc) simp_all

lemma challengeIds_map:
  "challengeIds lookup cs = map (\<lambda>c. case lookup (Key' c) of None \<Rightarrow> 0 | Some n \<Rightarrow> n) cs"
  unfolding challengeIds_def by (simp add: fold_append_map)

lemma fold_lookup_positive:
  assumes "\<forall>k v. m k = Some v \<longrightarrow> 1 \<le> v"
  shows "\<forall>k v. fold (\<lambda>(i, challengeKey) challengeIdLookup. challengeIdLookup(challengeKey \<mapsto> int i + 1))
                  (enumerate n ks) m k = Some v \<longrightarrow> 1 \<le> v"
  using assms
proof (induction ks arbitrary: n m)
  case Nil
  then show ?case by simp
next
  case (Cons a ks)
  have "\<forall>k v. (m(a \<mapsto> int n + 1)) k = Some v \<longrightarrow> 1 \<le> v"
    using Cons.prems by auto
  from Cons.IH [OF this, of "Suc n"] show ?case by simp
qed

lemma createChallengeIdLookup_positive:
  "createChallengeIdLookup catalog k = Some v \<Longrightarrow> 1 \<le> v"
  unfolding createChallengeIdLookup_def
  using fold_lookup_positive [of Map.empty 0 catalog] by simp

lemma nonzero_ids_are_recognised:
  assumes "\<And>k v. lookup k = Some v \<Longrightarrow> v \<noteq> 0"
  shows "filter (\<lambda>n. n \<noteq> 0) (map (\<lambda>c. case lookup (Key' c) of None \<Rightarrow> 0 | Some n \<Rightarrow> n) cs)
           = List.map_filter (\<lambda>c. lookup (Key' c)) cs"
proof (induction cs)
  case Nil
  then show ?case by (simp add: map_filter_simps)
next
  case (Cons c cs)
  then show ?case using assms
    by (cases "lookup (Key' c)") (auto simp: map_filter_simps)
qed


lemma createChallengeIdLookup_snoc:
  "createChallengeIdLookup (ks @ [k]) = (createChallengeIdLookup ks)(k \<mapsto> int (length ks) + 1)"
  by (simp add: createChallengeIdLookup_def enumerate_append_eq)

lemma createChallengeIdLookup_unknown:
  "k \<notin> set catalog \<Longrightarrow> createChallengeIdLookup catalog k = None"
proof (induction catalog rule: rev_induct)
  case Nil
  then show ?case by (simp add: createChallengeIdLookup_def)
next
  case (snoc x xs)
  then show ?case by (simp add: createChallengeIdLookup_snoc)
qed

lemma createChallengeIdLookup_position:
  "p < length catalog \<Longrightarrow>
   \<forall>q. p < q \<and> q < length catalog \<longrightarrow> catalog ! q \<noteq> catalog ! p \<Longrightarrow>
   createChallengeIdLookup catalog (catalog ! p) = Some (int p + 1)"
proof (induction catalog rule: rev_induct)
  case Nil
  then show ?case by simp
next
  case (snoc x xs)
  show ?case
  proof (cases "p = length xs")
    case True
    then show ?thesis by (simp add: createChallengeIdLookup_snoc)
  next
    case False
    then have p: "p < length xs" using snoc.prems(1) by simp
    have "(xs @ [x]) ! length xs \<noteq> (xs @ [x]) ! p"
      using snoc.prems(2) p by (metis length_append_singleton lessI)
    then have ne: "x \<noteq> xs ! p" using p by (simp add: nth_append)
    have later: "\<forall>q. p < q \<and> q < length xs \<longrightarrow> xs ! q \<noteq> xs ! p"
    proof (intro allI impI)
      fix q assume q: "p < q \<and> q < length xs"
      then have "(xs @ [x]) ! q \<noteq> (xs @ [x]) ! p" using snoc.prems(2) by simp
      then show "xs ! q \<noteq> xs ! p" using q p by (simp add: nth_append)
    qed
    have "createChallengeIdLookup xs (xs ! p) = Some (int p + 1)"
      using snoc.IH [OF p later] .
    then show ?thesis using ne p by (simp add: createChallengeIdLookup_snoc nth_append)
  qed
qed

text \<open>
  Claim C4, amended. The id list handed to the encoder has one id for every challenge
  status, in order: for a key the catalog holds, the 1-based position of the key in
  \<open>challenges.json\<close> (its last position if the file repeats it), and 0 for a key the
  catalog lacks. Dropping the zeros leaves exactly the ids of the recognised keys. The
  encoder is called on that list, and an unknown key does not fail the encode: with an
  encoder that accepts every non-empty list of non-negative numbers, as the hashids
  encoder does, the encode of every non-empty status list succeeds.
\<close>

theorem continue_code_ids_zero_for_unknown_keys:
  fixes catalog :: "string list" and challenges :: "ChallengeStatus list"
    and Encode :: "int list \<Rightarrow> string + string"
  defines "lookup \<equiv> createChallengeIdLookup catalog"
  defines "ids \<equiv> challengeIds lookup challenges"
  shows "length ids = length challenges \<and>
         (\<forall>i. i < length challenges \<longrightarrow>
            (Key' (challenges ! i) \<notin> set catalog \<longrightarrow> ids ! i = 0) \<and>
            (\<forall>p. p < length catalog \<and> catalog ! p = Key' (challenges ! i) \<and>
                 (\<forall>q. p < q \<and> q < length catalog \<longrightarrow> catalog ! q \<noteq> catalog ! p) \<longrightarrow>
                 ids ! i = int p + 1)) \<and>
         filter (\<lambda>n. n \<noteq> 0) ids =
           map (\<lambda>c. the (lookup (Key' c))) (filter (\<lambda>c. Key' c \<in> set catalog) challenges) \<and>
         GenerateContinueCode Encode lookup challenges = Encode ids \<and>
         (challenges \<noteq> [] \<and>
          (\<forall>numbers. numbers \<noteq> [] \<and> (\<forall>n \<in> set numbers. 0 \<le> n) \<longrightarrow>
             (\<exists>code. Encode numbers = Inr code)) \<longrightarrow>
            (\<exists>code. GenerateContinueCode Encode lookup challenges = Inr code))"
proof -
  have idsmap: "ids = map (\<lambda>c. case lookup (Key' c) of None \<Rightarrow> 0 | Some n \<Rightarrow> n) challenges"
    unfolding ids_def by (rule challengeIds_map)
  have len: "length ids = length challenges" by (simp add: idsmap)
  have each: "\<forall>i. i < length challenges \<longrightarrow>
            (Key' (challenges ! i) \<notin> set catalog \<longrightarrow> ids ! i = 0) \<and>
            (\<forall>p. p < length catalog \<and> catalog ! p = Key' (challenges ! i) \<and>
                 (\<forall>q. p < q \<and> q < length catalog \<longrightarrow> catalog ! q \<noteq> catalog ! p) \<longrightarrow>
                 ids ! i = int p + 1)"
  proof (intro allI impI conjI)
    fix i assume i: "i < length challenges" and "Key' (challenges ! i) \<notin> set catalog"
    then show "ids ! i = 0"
      by (simp add: idsmap lookup_def createChallengeIdLookup_unknown)
  next
    fix i p assume i: "i < length challenges"
      and p: "p < length catalog \<and> catalog ! p = Key' (challenges ! i) \<and>
                 (\<forall>q. p < q \<and> q < length catalog \<longrightarrow> catalog ! q \<noteq> catalog ! p)"
    have "lookup (catalog ! p) = Some (int p + 1)"
      unfolding lookup_def using p by (intro createChallengeIdLookup_position) auto
    then show "ids ! i = int p + 1" using i p by (simp add: idsmap)
  qed
  have pos: "\<And>k v. lookup k = Some v \<Longrightarrow> 1 \<le> v"
    unfolding lookup_def by (rule createChallengeIdLookup_positive)
  have dom: "lookup k \<noteq> None \<longleftrightarrow> k \<in> set catalog" for k
  proof
    assume "lookup k \<noteq> None"
    then show "k \<in> set catalog"
      by (rule contrapos_np) (simp add: lookup_def createChallengeIdLookup_unknown)
  next
    assume "k \<in> set catalog"
    then obtain p where p: "p < length catalog" "catalog ! p = k"
      by (auto simp: in_set_conv_nth)
    define m where "m = Max {q. q < length catalog \<and> catalog ! q = k}"
    have fin: "finite {q. q < length catalog \<and> catalog ! q = k}" by simp
    have ne: "{q. q < length catalog \<and> catalog ! q = k} \<noteq> {}" using p by auto
    have mm: "m < length catalog \<and> catalog ! m = k"
      using Max_in [OF fin ne] by (simp add: m_def)
    have "\<forall>q. m < q \<and> q < length catalog \<longrightarrow> catalog ! q \<noteq> catalog ! m"
    proof (intro allI impI notI)
      fix q assume q: "m < q \<and> q < length catalog" and "catalog ! q = catalog ! m"
      then have "q \<in> {q. q < length catalog \<and> catalog ! q = k}" using mm by simp
      then have "q \<le> m" unfolding m_def using fin by (rule Max_ge [rotated])
      then show False using q by simp
    qed
    then have "lookup (catalog ! m) = Some (int m + 1)"
      unfolding lookup_def using mm by (intro createChallengeIdLookup_position) auto
    then show "lookup k \<noteq> None" using mm by simp
  qed
  have filt: "filter (\<lambda>n. n \<noteq> 0) ids =
           map (\<lambda>c. the (lookup (Key' c))) (filter (\<lambda>c. Key' c \<in> set catalog) challenges)"
    unfolding idsmap
  proof (induction challenges)
    case Nil
    then show ?case by simp
  next
    case (Cons c cs)
    show ?case
    proof (cases "lookup (Key' c)")
      case None
      then have "Key' c \<notin> set catalog" using dom [of "Key' c"] by simp
      then show ?thesis using None Cons by simp
    next
      case (Some v)
      then have "Key' c \<in> set catalog" using dom [of "Key' c"] by simp
      moreover have "v \<noteq> 0" using pos [OF Some] by simp
      ultimately show ?thesis using Some Cons by simp
    qed
  qed
  have gen: "GenerateContinueCode Encode lookup challenges = Encode ids"
    unfolding GenerateContinueCode_def ids_def by (simp split: sum.split)
  have nonneg: "\<forall>n \<in> set ids. 0 \<le> n"
    unfolding idsmap using pos by (fastforce split: option.splits)
  have ok: "challenges \<noteq> [] \<and>
          (\<forall>numbers. numbers \<noteq> [] \<and> (\<forall>n \<in> set numbers. 0 \<le> n) \<longrightarrow>
             (\<exists>code. Encode numbers = Inr code)) \<longrightarrow>
            (\<exists>code. GenerateContinueCode Encode lookup challenges = Inr code)"
  proof
    assume h: "challenges \<noteq> [] \<and>
          (\<forall>numbers. numbers \<noteq> [] \<and> (\<forall>n \<in> set numbers. 0 \<le> n) \<longrightarrow>
             (\<exists>code. Encode numbers = Inr code))"
    then have "ids \<noteq> []" using len by auto
    then have "\<exists>code. Encode ids = Inr code" using h nonneg by blast
    then show "\<exists>code. GenerateContinueCode Encode lookup challenges = Inr code"
      by (simp add: gen)
  qed
  from len each filt gen ok show ?thesis by blast
qed

text \<open>
  Claim C4 as stated fails: with a catalog of two challenges, a status list holding the
  second and a key the catalog lacks yields the ids 2 and 0, not the ids of the
  recognised keys alone.
\<close>

theorem continue_code_ids_zero_for_unknown_keys_counterexample:
  "challengeIds (createChallengeIdLookup [''scoreBoardChallenge'', ''loginAdminChallenge''])
     [\<lparr>Key' = ''loginAdminChallenge'', SolvedAt' = ''2024-01-01T10:00:00.000Z''\<rparr>,
      \<lparr>Key' = ''retiredChallenge'', SolvedAt' = ''2024-01-01T11:00:00.000Z''\<rparr>] = [2, 0] \<and>
   map (\<lambda>c. the (createChallengeIdLookup [''scoreBoardChallenge'', ''loginAdminChallenge'']
                   (Key' c)))
     (filter (\<lambda>c. Key' c \<in> set [''scoreBoardChallenge'', ''loginAdminChallenge''])
       [\<lparr>Key' = ''loginAdminChallenge'', SolvedAt' = ''2024-01-01T10:00:00.000Z''\<rparr>,
        \<lparr>Key' = ''retiredChallenge'', SolvedAt' = ''2024-01-01T11:00:00.000Z''\<rparr>]) = [2]"
  by (simp add: challengeIds_def createChallengeIdLookup_def enumerate_eq_zip upt_rec)

text \<open>
  Claim C4 on examples: the ids of a known and an unknown key, and the encode of a list
  that holds only an unknown key, with an encoder that rejects the empty list and
  negative numbers.
\<close>

theorem continue_code_ids_zero_for_unknown_keys_witness:
  "challengeIds (createChallengeIdLookup [''scoreBoardChallenge'', ''loginAdminChallenge''])
     [\<lparr>Key' = ''loginAdminChallenge'', SolvedAt' = ''2024-01-01T10:00:00.000Z''\<rparr>,
      \<lparr>Key' = ''retiredChallenge'', SolvedAt' = ''2024-01-01T11:00:00.000Z''\<rparr>] ! 0 = 2 \<and>
   challengeIds (createChallengeIdLookup [''scoreBoardChallenge'', ''loginAdminChallenge''])
     [\<lparr>Key' = ''loginAdminChallenge'', SolvedAt' = ''2024-01-01T10:00:00.000Z''\<rparr>,
      \<lparr>Key' = ''retiredChallenge'', SolvedAt' = ''2024-01-01T11:00:00.000Z''\<rparr>] ! 1 = 0 \<and>
   (\<exists>code. GenerateContinueCode
      (\<lambda>numbers. if numbers = [] \<or> list_ex (\<lambda>n. n < 0) numbers
                 then Inl ''rejected'' else Inr ''accepted'')
      (createChallengeIdLookup [''scoreBoardChallenge'', ''loginAdminChallenge''])
      [\<lparr>Key' = ''retiredChallenge'', SolvedAt' = ''2024-01-01T11:00:00.000Z''\<rparr>] = Inr code)"
proof -
  let ?catalog = "[''scoreBoardChallenge'', ''loginAdminChallenge'']"
  let ?known = "\<lparr>Key' = ''loginAdminChallenge'', SolvedAt' = ''2024-01-01T10:00:00.000Z''\<rparr>"
  let ?unknown = "\<lparr>Key' = ''retiredChallenge'', SolvedAt' = ''2024-01-01T11:00:00.000Z''\<rparr>"
  let ?Encode = "\<lambda>numbers::int list. if numbers = [] \<or> list_ex (\<lambda>n. n < 0) numbers
                 then Inl ''rejected'' else (Inr ''accepted'' :: string + string)"
  note each = continue_code_ids_zero_for_unknown_keys
    [where catalog = ?catalog and challenges = "[?known, ?unknown]",
     THEN conjunct2, THEN conjunct1, rule_format]
  have known: "challengeIds (createChallengeIdLookup ?catalog) [?known, ?unknown] ! 0 = 2"
    using each [of 0, THEN conjunct2, rule_format, of 1] by simp
  have unknown: "challengeIds (createChallengeIdLookup ?catalog) [?known, ?unknown] ! 1 = 0"
    using each [of 1, THEN conjunct1] by simp
  have accepts: "\<forall>numbers. numbers \<noteq> [] \<and> (\<forall>n \<in> set numbers. 0 \<le> n) \<longrightarrow>
                   (\<exists>code. ?Encode numbers = Inr code)"
    by (force simp: list_ex_iff)
  have encoded: "\<exists>code. GenerateContinueCode ?Encode (createChallengeIdLookup ?catalog)
                   [?unknown] = Inr code"
    using continue_code_ids_zero_for_unknown_keys
      [where catalog = ?catalog and challenges = "[?unknown]" and Encode = ?Encode,
       THEN conjunct2, THEN conjunct2, THEN conjunct2, THEN conjunct2] accepts
    by simp
  from known unknown encoded show ?thesis by blast
qed

section \<open>Properties of the comparator and the scheduler\<close>

lemma CompareChallengeStates_ApplyCode:
  "CompareChallengeStates cur known = ApplyCode \<longleftrightarrow>
     (\<exists>l \<in> set known. Key' l \<notin> Key' ` set cur)"
  by (auto simp: CompareChallengeStates_def list_ex_iff list_all_iff)

lemma CompareChallengeStates_NoOp:
  "CompareChallengeStates cur known = NoOp \<longleftrightarrow> Key' ` set cur = Key' ` set known"
  by (auto simp: CompareChallengeStates_def list_ex_iff list_all_iff)

lemma CompareChallengeStates_UpdateCache:
  "CompareChallengeStates cur known = UpdateCache \<longleftrightarrow> Key' ` set known \<subset> Key' ` set cur"
  by (auto simp: CompareChallengeStates_def list_ex_iff list_all_iff)

text \<open>
  Claim C5. The comparator answers NoOp exactly when the live and the last-known
  progress hold the same set of solved keys; ApplyCode when the last-known progress
  holds a key the live progress lacks; UpdateCache when the keys of the live progress
  strictly include those of the last-known progress; and never NoOp for two lists of the
  same length whose key sets differ. With the NoOp answer and both bonus codes equal to
  the persisted ones, the worker applies no code and leaves the cluster as it is.
\<close>

theorem comparator_classifies_by_key_sets:
  "(CompareChallengeStates live lastKnown = NoOp \<longleftrightarrow>
      Key' ` set live = Key' ` set lastKnown) \<and>
   ((\<exists>l \<in> set lastKnown. Key' l \<notin> Key' ` set live) \<longrightarrow>
      CompareChallengeStates live lastKnown = ApplyCode) \<and>
   (Key' ` set lastKnown \<subset> Key' ` set live \<longrightarrow>
      CompareChallengeStates live lastKnown = UpdateCache) \<and>
   (length live = length lastKnown \<and> Key' ` set live \<noteq> Key' ` set lastKnown \<longrightarrow>
      CompareChallengeStates live lastKnown \<noteq> NoOp) \<and>
   (cluster (''juiceshop-'' @ Team job) = Some annotations \<and>
    Key' ` set (Challenges' progress) = Key' ` set (LastChallengeProgress job) \<and>
    ContinueCodeFindIt progress = index annotations continueCodeFindItAnnotation \<and>
    ContinueCodeFixIt progress = index annotations continueCodeFixItAnnotation \<longrightarrow>
      workOnProgressUpdate marshal Encode lookup cluster job (Some progress) refetched
        = ([], cluster))"
proof -
  have worker: "cluster (''juiceshop-'' @ Team job) = Some annotations \<and>
    Key' ` set (Challenges' progress) = Key' ` set (LastChallengeProgress job) \<and>
    ContinueCodeFindIt progress = index annotations continueCodeFindItAnnotation \<and>
    ContinueCodeFixIt progress = index annotations continueCodeFixItAnnotation \<longrightarrow>
      workOnProgressUpdate marshal Encode lookup cluster job (Some progress) refetched
        = ([], cluster)"
  proof
    assume h: "cluster (''juiceshop-'' @ Team job) = Some annotations \<and>
      Key' ` set (Challenges' progress) = Key' ` set (LastChallengeProgress job) \<and>
      ContinueCodeFindIt progress = index annotations continueCodeFindItAnnotation \<and>
      ContinueCodeFixIt progress = index annotations continueCodeFixItAnnotation"
    then have "CompareChallengeStates (Challenges' progress) (LastChallengeProgress job) = NoOp"
      by (simp add: CompareChallengeStates_NoOp)
    then show "workOnProgressUpdate marshal Encode lookup cluster job (Some progress) refetched
        = ([], cluster)"
      using h by (simp add: workOnProgressUpdate_def Let_def)
  qed
  show ?thesis
    using worker
    by (simp add: CompareChallengeStates_NoOp CompareChallengeStates_ApplyCode
        CompareChallengeStates_UpdateCache)
qed

lemma createProgressUpdateJobs_append:
  "createProgressUpdateJobs um (map Inr earlier @ rs) =
     (concat (map (cycleJobs um) earlier) @ fst (createProgressUpdateJobs um rs),
      snd (createProgressUpdateJobs um rs))"
  by (induction earlier) (simp_all add: Let_def)

text \<open>
  Claim C8, amended. In the cycle whose \<open>List\<close> call fails the scheduler panics with
  the error's message: the jobs of the earlier cycles have been sent, the failing cycle
  sends none, and no later cycle runs.
\<close>

theorem failed_list_call_panics:
  "createProgressUpdateJobs unmarshal (map Inr earlier @ Inl err # later) =
     (concat (map (cycleJobs unmarshal) earlier), Panicked err)"
  by (simp add: createProgressUpdateJobs_append)


section \<open>Properties of the webhook handler\<close>

lemma annotation_keys_distinct:
  "challengesAnnotation \<noteq> continueCodeFindItAnnotation"
  "challengesAnnotation \<noteq> continueCodeFixItAnnotation"
  "continueCodeFindItAnnotation \<noteq> continueCodeFixItAnnotation"
  by (simp_all add: challengesAnnotation_def continueCodeFindItAnnotation_def
      continueCodeFixItAnnotation_def)

lemma PersistProgress_existing:
  "cluster (''juiceshop-'' @ team) = Some annotations \<Longrightarrow>
   PersistProgress marshal cluster team solved findIt fixIt =
     cluster(''juiceshop-'' @ team \<mapsto>
       annotations(challengesAnnotation \<mapsto> marshal solved,
                   continueCodeFindItAnnotation \<mapsto> findIt,
                   continueCodeFixItAnnotation \<mapsto> fixIt))"
  by (simp add: PersistProgress_def)

lemma decode_persisted:
  "decodeChallengeStatus unmarshal
     (annotations(challengesAnnotation \<mapsto> marshal solved,
                  continueCodeFindItAnnotation \<mapsto> findIt,
                  continueCodeFixItAnnotation \<mapsto> fixIt)) = unmarshal (marshal solved)"
  using annotation_keys_distinct by (simp add: decodeChallengeStatus_def)

lemma index_persisted:
  "index (annotations(challengesAnnotation \<mapsto> text,
                      continueCodeFindItAnnotation \<mapsto> findIt,
                      continueCodeFixItAnnotation \<mapsto> fixIt)) continueCodeFindItAnnotation = findIt"
  "index (annotations(challengesAnnotation \<mapsto> text,
                      continueCodeFindItAnnotation \<mapsto> findIt,
                      continueCodeFixItAnnotation \<mapsto> fixIt)) continueCodeFixItAnnotation = fixIt"
  using annotation_keys_distinct by (simp_all add: index_def)


lemma mset_sort_Stable: "mset (sort_Stable lessFn xs) = mset xs"
  by (induction xs) (auto simp: sort_Stable_def mset_insertLess)

lemma sort_Stable_in_order:
  "sorted_wrt (\<lambda>a b. \<not> lessFn b a) xs \<Longrightarrow> sort_Stable lessFn xs = xs"
proof (induction xs)
  case Nil
  then show ?case by (simp add: sort_Stable_def)
next
  case (Cons x xs)
  then have rest: "sort_Stable lessFn xs = xs" by simp
  have "insertLess lessFn x xs = x # xs"
    using Cons.prems by (cases xs) simp_all
  then show ?case using rest by (simp add: sort_Stable_def)
qed

lemma webhookHandler_regular:
  assumes "\<not> prefix ''find-it-'' (Challenge webhook)" "\<not> prefix ''fix-it-'' (Challenge webhook)"
    and "cluster (''juiceshop-'' @ team) = Some annotations"
  shows "webhookHandler unmarshal marshal Less cluster team (Some webhook) live =
     (if Challenge webhook \<in> Key' ` set (decodeChallengeStatus unmarshal annotations)
      then (200, cluster)
      else (200, PersistProgress marshal cluster team
              (sort_Stable Less (decodeChallengeStatus unmarshal annotations @
                 [\<lparr>Key' = Challenge webhook, SolvedAt' = IssuedOn webhook\<rparr>]))
              (index annotations continueCodeFindItAnnotation)
              (index annotations continueCodeFixItAnnotation)))"
proof -
  have mem: "list_ex (\<lambda>status. Key' status = Challenge webhook) L \<longleftrightarrow>
             Challenge webhook \<in> Key' ` set L" for L
    unfolding list_ex_iff image_iff by (rule bex_cong [OF refl]) (rule eq_commute)
  show ?thesis using assms by (simp add: webhookHandler_def Let_def mem)
qed

text \<open>
  Claim C6, amended. For a webhook whose challenge key starts with neither
  \<open>find-it-\<close> nor \<open>fix-it-\<close>, on an existing deployment: when the key is recorded
  in the persisted list the handler answers 200 and leaves the cluster as it is; when
  it is not, the handler answers 200, appends one entry of that key and timestamp to
  the recorded list and persists the list as \<open>sort.Stable\<close> leaves it, with both bonus
  codes as they were: the persisted list holds the recorded entries and the new one,
  which is its only entry of that key, and is the recorded list with the entry at its
  end when no element of that list is less than an earlier one. Handling the same
  webhook again changes nothing, provided the persisted text decodes to the list it
  encodes.
\<close>

theorem webhook_appends_regular_challenge_if_absent:
  fixes unmarshal :: "string \<Rightarrow> ChallengeStatus list"
    and marshal :: "ChallengeStatus list \<Rightarrow> string"
    and Less :: "ChallengeStatus \<Rightarrow> ChallengeStatus \<Rightarrow> bool"
    and cluster :: Cluster and team :: string and webhook :: JuiceShopWebhook
    and live again :: "ChallengeProgressWithCodes option"
  assumes "\<not> prefix ''find-it-'' (Challenge webhook)"
    and "\<not> prefix ''fix-it-'' (Challenge webhook)"
    and "cluster (''juiceshop-'' @ team) = Some annotations"
  defines "recorded \<equiv> decodeChallengeStatus unmarshal annotations"
    and "entry \<equiv> \<lparr>Key' = Challenge webhook, SolvedAt' = IssuedOn webhook\<rparr>"
    and "handled \<equiv> webhookHandler unmarshal marshal Less cluster team (Some webhook) live"
  defines "persisted \<equiv> sort_Stable Less (recorded @ [entry])"
  shows "(Challenge webhook \<in> Key' ` set recorded \<longrightarrow> handled = (200, cluster)) \<and>
         (Challenge webhook \<notin> Key' ` set recorded \<longrightarrow>
            handled =
              (200, PersistProgress marshal cluster team persisted
                      (index annotations continueCodeFindItAnnotation)
                      (index annotations continueCodeFixItAnnotation)) \<and>
            mset persisted = add_mset entry (mset recorded) \<and>
            filter (\<lambda>status. Key' status = Challenge webhook) persisted = [entry] \<and>
            (sorted_wrt (\<lambda>a b. \<not> Less b a) (recorded @ [entry]) \<longrightarrow>
               persisted = recorded @ [entry])) \<and>
         (unmarshal (marshal persisted) = persisted \<longrightarrow>
            webhookHandler unmarshal marshal Less (snd handled) team (Some webhook) again =
              (200, snd handled))"
proof -
  note reg = webhookHandler_regular
    [where webhook = webhook and cluster = cluster and team = team
       and annotations = annotations, OF assms(1,2,3)]
  have h: "handled =
     (if Challenge webhook \<in> Key' ` set recorded then (200, cluster)
      else (200, PersistProgress marshal cluster team persisted
              (index annotations continueCodeFindItAnnotation)
              (index annotations continueCodeFixItAnnotation)))"
    unfolding handled_def persisted_def recorded_def entry_def by (rule reg)
  have present: "Challenge webhook \<in> Key' ` set recorded \<longrightarrow> handled = (200, cluster)"
    using h by simp
  have ms: "mset persisted = add_mset entry (mset recorded)"
    by (simp add: persisted_def mset_sort_Stable)
  have only: "filter (\<lambda>status. Key' status = Challenge webhook) persisted = [entry]"
    if absent: "Challenge webhook \<notin> Key' ` set recorded"
  proof -
    let ?P = "\<lambda>status. Key' status = Challenge webhook"
    have none: "filter ?P recorded = []"
      using absent by (auto simp: filter_empty_conv image_iff)
    have "mset (filter ?P persisted) = mset (filter ?P (entry # recorded))"
      by (simp add: ms)
    also have "\<dots> = {#entry#}"
      using none by (simp add: entry_def)
    finally show ?thesis by (simp only: mset_single_iff)
  qed
  have app: "sorted_wrt (\<lambda>a b. \<not> Less b a) (recorded @ [entry]) \<longrightarrow>
               persisted = recorded @ [entry]"
    unfolding persisted_def by (simp add: sort_Stable_in_order)
  have absent: "Challenge webhook \<notin> Key' ` set recorded \<longrightarrow>
            handled =
              (200, PersistProgress marshal cluster team persisted
                      (index annotations continueCodeFindItAnnotation)
                      (index annotations continueCodeFixItAnnotation)) \<and>
            mset persisted = add_mset entry (mset recorded) \<and>
            filter (\<lambda>status. Key' status = Challenge webhook) persisted = [entry] \<and>
            (sorted_wrt (\<lambda>a b. \<not> Less b a) (recorded @ [entry]) \<longrightarrow>
               persisted = recorded @ [entry])"
    using h ms app only by simp
  have twice: "unmarshal (marshal persisted) = persisted \<longrightarrow>
            webhookHandler unmarshal marshal Less (snd handled) team (Some webhook) again =
              (200, snd handled)"
  proof
    assume rt: "unmarshal (marshal persisted) = persisted"
    show "webhookHandler unmarshal marshal Less (snd handled) team (Some webhook) again =
              (200, snd handled)"
    proof (cases "Challenge webhook \<in> Key' ` set recorded")
      case True
      then have "snd handled = cluster" using h by simp
      then show ?thesis
        using reg [of unmarshal marshal Less again] True
        by (simp add: recorded_def)
    next
      case False
      let ?ann = "annotations(challengesAnnotation \<mapsto> marshal persisted,
                   continueCodeFindItAnnotation \<mapsto> index annotations continueCodeFindItAnnotation,
                   continueCodeFixItAnnotation \<mapsto> index annotations continueCodeFixItAnnotation)"
      have after: "snd handled = cluster(''juiceshop-'' @ team \<mapsto> ?ann)"
        using h False assms(3) by (simp add: PersistProgress_existing)
      then have dep: "snd handled (''juiceshop-'' @ team) = Some ?ann" by simp
      have dec: "decodeChallengeStatus unmarshal ?ann = persisted"
        using rt by (simp add: decode_persisted)
      have "entry \<in> set persisted"
        using ms by (metis mset_eq_setD set_mset_add_mset_insert insertI1 set_mset_mset)
      then have "Challenge webhook \<in> Key' ` set (decodeChallengeStatus unmarshal ?ann)"
        unfolding dec by (force simp: entry_def)
      then show ?thesis
        using webhookHandler_regular
          [where webhook = webhook and cluster = "snd handled" and team = team
             and annotations = ?ann and unmarshal = unmarshal and marshal = marshal
             and Less = Less and live = again, OF assms(1,2) dep]
        by simp
    qed
  qed
  from present absent twice show ?thesis by blast
qed

text \<open>
  Claim C10. For a webhook whose challenge key starts with \<open>find-it-\<close> or
  \<open>fix-it-\<close>, on an existing deployment: when the live progress cannot be fetched
  the handler answers 500 and leaves the cluster as it is; otherwise it answers 200 and
  persists the recorded challenge list as decoded, the live continue code of the
  key's category, and the persisted continue code of the other category. In both cases
  the challenge is not added: the persisted list decodes to the recorded list, provided
  the persisted text decodes to the list it encodes.
\<close>

theorem webhook_bonus_challenge_updates_only_its_code:
  fixes unmarshal :: "string \<Rightarrow> ChallengeStatus list"
    and marshal :: "ChallengeStatus list \<Rightarrow> string"
    and Less :: "ChallengeStatus \<Rightarrow> ChallengeStatus \<Rightarrow> bool"
    and cluster :: Cluster and team :: string and webhook :: JuiceShopWebhook
    and live :: "ChallengeProgressWithCodes option"
  assumes "prefix ''find-it-'' (Challenge webhook) \<or> prefix ''fix-it-'' (Challenge webhook)"
    and "cluster (''juiceshop-'' @ team) = Some annotations"
  defines "recorded \<equiv> decodeChallengeStatus unmarshal annotations"
    and "handled \<equiv> webhookHandler unmarshal marshal Less cluster team (Some webhook) live"
  defines "after \<equiv> the (snd handled (''juiceshop-'' @ team))"
  shows "(live = None \<longrightarrow> handled = (500, cluster)) \<and>
         (\<forall>currentProgress. live = Some currentProgress \<longrightarrow>
            handled =
              (200, PersistProgress marshal cluster team recorded
                      (if prefix ''find-it-'' (Challenge webhook)
                       then ContinueCodeFindIt currentProgress
                       else index annotations continueCodeFindItAnnotation)
                      (if prefix ''find-it-'' (Challenge webhook)
                       then index annotations continueCodeFixItAnnotation
                       else ContinueCodeFixIt currentProgress)) \<and>
            snd handled (''juiceshop-'' @ team) = Some after \<and>
            after challengesAnnotation = Some (marshal recorded) \<and>
            index after continueCodeFindItAnnotation =
              (if prefix ''find-it-'' (Challenge webhook)
               then ContinueCodeFindIt currentProgress
               else index annotations continueCodeFindItAnnotation) \<and>
            index after continueCodeFixItAnnotation =
              (if prefix ''find-it-'' (Challenge webhook)
               then index annotations continueCodeFixItAnnotation
               else ContinueCodeFixIt currentProgress)) \<and>
         (unmarshal (marshal recorded) = recorded \<longrightarrow>
            decodeChallengeStatus unmarshal after = recorded)"
proof -
  have none: "live = None \<longrightarrow> handled = (500, cluster)"
    using assms(1,2) by (auto simp: handled_def webhookHandler_def Let_def)
  have some: "handled =
              (200, PersistProgress marshal cluster team recorded
                      (if prefix ''find-it-'' (Challenge webhook)
                       then ContinueCodeFindIt currentProgress
                       else index annotations continueCodeFindItAnnotation)
                      (if prefix ''find-it-'' (Challenge webhook)
                       then index annotations continueCodeFixItAnnotation
                       else ContinueCodeFixIt currentProgress))"
    if "live = Some currentProgress" for currentProgress
    using assms(1,2) that by (auto simp: handled_def recorded_def webhookHandler_def Let_def)
  have after_some: "snd handled (''juiceshop-'' @ team) = Some after \<and>
            after challengesAnnotation = Some (marshal recorded) \<and>
            index after continueCodeFindItAnnotation =
              (if prefix ''find-it-'' (Challenge webhook)
               then ContinueCodeFindIt currentProgress
               else index annotations continueCodeFindItAnnotation) \<and>
            index after continueCodeFixItAnnotation =
              (if prefix ''find-it-'' (Challenge webhook)
               then index annotations continueCodeFixItAnnotation
               else ContinueCodeFixIt currentProgress)"
    if "live = Some currentProgress" for currentProgress
    unfolding after_def some [OF that]
    using assms(2) annotation_keys_distinct
    by (simp add: PersistProgress_existing index_persisted)
  have dec: "unmarshal (marshal recorded) = recorded \<longrightarrow>
            decodeChallengeStatus unmarshal after = recorded"
  proof (cases live)
    case None
    then have "after = annotations" using none assms(2) by (simp add: after_def)
    then show ?thesis by (simp add: recorded_def)
  next
    case (Some currentProgress)
    show ?thesis
      unfolding after_def some [OF Some]
      using assms(2) by (simp add: PersistProgress_existing decode_persisted)
  qed
  from none some after_some dec show ?thesis by blast
qed


section \<open>The examples\<close>

text \<open>The names of the three annotations, and the example codec on the texts it meets.\<close>

lemmas annotation_defs = challengesAnnotation_def continueCodeFindItAnnotation_def
  continueCodeFixItAnnotation_def

lemma codec_values:
  "exampleMarshal [] = ''[]''"
  "exampleMarshal [scoreBoardSolved] = exampleJson"
  "exampleUnmarshal [] = []"
  "exampleUnmarshal ''[]'' = []"
  "exampleUnmarshal exampleJson = [scoreBoardSolved]"
  "exampleUnmarshal (exampleMarshal [scoreBoardSolved, loginAdminSolved]) =
     [scoreBoardSolved, loginAdminSolved]"
  "exampleUnmarshal (exampleMarshal [findItSolved]) = [findItSolved]"
  by (simp_all add: exampleUnmarshal_def exampleMarshal_def)

text \<open>
  Claim C6 as stated fails for a key of a bonus category: the key is not recorded, the
  handler answers 200, and the text it persists is the empty array, where the array
  with an entry of that key is another text, which decodes to that entry.
\<close>

theorem webhook_appends_regular_challenge_if_absent_counterexample:
  "Challenge findItWebhook \<notin>
     Key' ` set (decodeChallengeStatus exampleUnmarshal Map.empty) \<and>
   webhookHandler exampleUnmarshal exampleMarshal exampleLess freshCluster ''owasp''
     (Some findItWebhook) (Some liveProgress) =
     (200, PersistProgress exampleMarshal freshCluster ''owasp'' [] ''newFindItCode'' []) \<and>
   the (snd (webhookHandler exampleUnmarshal exampleMarshal exampleLess freshCluster ''owasp''
               (Some findItWebhook) (Some liveProgress)) ''juiceshop-owasp'')
     challengesAnnotation = Some ''[]'' \<and>
   decodeChallengeStatus exampleUnmarshal
     (the (snd (webhookHandler exampleUnmarshal exampleMarshal exampleLess freshCluster ''owasp''
                  (Some findItWebhook) (Some liveProgress)) ''juiceshop-owasp'')) = [] \<and>
   exampleMarshal [\<lparr>Key' = Challenge findItWebhook, SolvedAt' = IssuedOn findItWebhook\<rparr>]
     \<noteq> ''[]'' \<and>
   exampleUnmarshal
     (exampleMarshal [\<lparr>Key' = Challenge findItWebhook, SolvedAt' = IssuedOn findItWebhook\<rparr>])
     = [\<lparr>Key' = Challenge findItWebhook, SolvedAt' = IssuedOn findItWebhook\<rparr>]"
proof -
  have a: "Challenge findItWebhook \<notin>
     Key' ` set (decodeChallengeStatus exampleUnmarshal Map.empty)"
    by (simp add: decodeChallengeStatus_def codec_values)
  have b: "webhookHandler exampleUnmarshal exampleMarshal exampleLess freshCluster ''owasp''
     (Some findItWebhook) (Some liveProgress) =
     (200, PersistProgress exampleMarshal freshCluster ''owasp'' [] ''newFindItCode'' [])"
    by (simp add: webhookHandler_def decodeChallengeStatus_def index_def codec_values)
  have c: "the (PersistProgress exampleMarshal freshCluster ''owasp'' [] ''newFindItCode'' []
             ''juiceshop-owasp'') challengesAnnotation = Some ''[]''"
    by (simp add: PersistProgress_def annotation_defs codec_values)
  have d: "decodeChallengeStatus exampleUnmarshal
     (the (PersistProgress exampleMarshal freshCluster ''owasp'' [] ''newFindItCode'' []
             ''juiceshop-owasp'')) = []"
    by (simp add: PersistProgress_def decodeChallengeStatus_def annotation_defs codec_values)
  have e: "exampleMarshal [\<lparr>Key' = Challenge findItWebhook, SolvedAt' = IssuedOn findItWebhook\<rparr>]
     \<noteq> ''[]''"
    by (simp add: exampleMarshal_def)
  have f: "exampleUnmarshal
     (exampleMarshal [\<lparr>Key' = Challenge findItWebhook, SolvedAt' = IssuedOn findItWebhook\<rparr>])
     = [\<lparr>Key' = Challenge findItWebhook, SolvedAt' = IssuedOn findItWebhook\<rparr>]"
    using codec_values(7) by simp
  show ?thesis unfolding b using a c d e f by simp
qed

text \<open>
  Claim C6 on examples: a first challenge on a deployment without annotations, the same
  webhook again, a webhook for a recorded challenge, and a second challenge.
\<close>

theorem webhook_appends_regular_challenge_if_absent_witness:
  "webhookHandler exampleUnmarshal exampleMarshal exampleLess freshCluster ''owasp''
     (Some scoreBoardWebhook) None =
     (200, PersistProgress exampleMarshal freshCluster ''owasp'' [scoreBoardSolved] [] []) \<and>
   webhookHandler exampleUnmarshal exampleMarshal exampleLess
     (PersistProgress exampleMarshal freshCluster ''owasp'' [scoreBoardSolved] [] [])
     ''owasp'' (Some scoreBoardWebhook) None =
     (200, PersistProgress exampleMarshal freshCluster ''owasp'' [scoreBoardSolved] [] []) \<and>
   decodeChallengeStatus exampleUnmarshal
     (the (PersistProgress exampleMarshal freshCluster ''owasp'' [scoreBoardSolved] [] []
             ''juiceshop-owasp'')) = [scoreBoardSolved] \<and>
   webhookHandler exampleUnmarshal exampleMarshal exampleLess persistedCluster ''owasp''
     (Some scoreBoardWebhook) None = (200, persistedCluster) \<and>
   webhookHandler exampleUnmarshal exampleMarshal exampleLess persistedCluster ''owasp''
     (Some loginAdminWebhook) None =
     (200, PersistProgress exampleMarshal persistedCluster ''owasp''
             [scoreBoardSolved, loginAdminSolved] ''oldFindItCode'' ''oldFixItCode'') \<and>
   decodeChallengeStatus exampleUnmarshal
     (the (PersistProgress exampleMarshal persistedCluster ''owasp''
             [scoreBoardSolved, loginAdminSolved] ''oldFindItCode'' ''oldFixItCode''
             ''juiceshop-owasp'')) = [scoreBoardSolved, loginAdminSolved]"
proof -
  have fresh: "freshCluster (''juiceshop-'' @ ''owasp'') = Some Map.empty" by simp
  have persisted: "persistedCluster (''juiceshop-'' @ ''owasp'') = Some persistedAnnotations"
    by simp
  have none: "decodeChallengeStatus exampleUnmarshal Map.empty = []"
    by (simp add: decodeChallengeStatus_def codec_values)
  have one: "decodeChallengeStatus exampleUnmarshal persistedAnnotations = [scoreBoardSolved]"
    by (simp add: decodeChallengeStatus_def annotation_defs codec_values)
  have codes: "index persistedAnnotations continueCodeFindItAnnotation = ''oldFindItCode''"
    "index persistedAnnotations continueCodeFixItAnnotation = ''oldFixItCode''"
    "index Map.empty continueCodeFindItAnnotation = []"
    "index Map.empty continueCodeFixItAnnotation = []"
    by (simp_all add: index_def annotation_defs)
  have sb1: "\<not> prefix ''find-it-'' (Challenge scoreBoardWebhook)" by simp
  have sb2: "\<not> prefix ''fix-it-'' (Challenge scoreBoardWebhook)" by simp
  have la1: "\<not> prefix ''find-it-'' (Challenge loginAdminWebhook)" by simp
  have la2: "\<not> prefix ''fix-it-'' (Challenge loginAdminWebhook)" by simp
  have s1: "sort_Stable exampleLess ([] @ [\<lparr>Key' = Challenge scoreBoardWebhook,
              SolvedAt' = IssuedOn scoreBoardWebhook\<rparr>]) = [scoreBoardSolved]"
    by (simp add: sort_Stable_def)
  have s2: "sort_Stable exampleLess ([scoreBoardSolved] @ [\<lparr>Key' = Challenge loginAdminWebhook,
              SolvedAt' = IssuedOn loginAdminWebhook\<rparr>]) = [scoreBoardSolved, loginAdminSolved]"
    by (simp add: sort_Stable_def)
  have rt1: "exampleUnmarshal (exampleMarshal [scoreBoardSolved]) = [scoreBoardSolved]"
    by (simp add: codec_values)
  note first = webhook_appends_regular_challenge_if_absent
    [where webhook = scoreBoardWebhook and cluster = freshCluster and team = "''owasp''"
       and annotations = Map.empty and unmarshal = exampleUnmarshal
       and marshal = exampleMarshal and Less = exampleLess and live = None and again = None,
     OF sb1 sb2 fresh, unfolded none s1]
  note recorded = webhook_appends_regular_challenge_if_absent
    [where webhook = scoreBoardWebhook and cluster = persistedCluster and team = "''owasp''"
       and annotations = persistedAnnotations and unmarshal = exampleUnmarshal
       and marshal = exampleMarshal and Less = exampleLess and live = None and again = None,
     OF sb1 sb2 persisted, unfolded one, THEN conjunct1]
  note second = webhook_appends_regular_challenge_if_absent
    [where webhook = loginAdminWebhook and cluster = persistedCluster and team = "''owasp''"
       and annotations = persistedAnnotations and unmarshal = exampleUnmarshal
       and marshal = exampleMarshal and Less = exampleLess and live = None and again = None,
     OF la1 la2 persisted, unfolded one s2, THEN conjunct2, THEN conjunct1]
  have a: "webhookHandler exampleUnmarshal exampleMarshal exampleLess freshCluster ''owasp''
     (Some scoreBoardWebhook) None =
     (200, PersistProgress exampleMarshal freshCluster ''owasp'' [scoreBoardSolved] [] [])"
    using first [THEN conjunct2, THEN conjunct1] by (simp add: codes)
  have b: "webhookHandler exampleUnmarshal exampleMarshal exampleLess
     (PersistProgress exampleMarshal freshCluster ''owasp'' [scoreBoardSolved] [] [])
     ''owasp'' (Some scoreBoardWebhook) None =
     (200, PersistProgress exampleMarshal freshCluster ''owasp'' [scoreBoardSolved] [] [])"
    using first [THEN conjunct2, THEN conjunct2] rt1 unfolding a by simp
  have c: "decodeChallengeStatus exampleUnmarshal
     (the (PersistProgress exampleMarshal freshCluster ''owasp'' [scoreBoardSolved] [] []
             ''juiceshop-owasp'')) = [scoreBoardSolved]"
    by (simp add: PersistProgress_def decodeChallengeStatus_def annotation_defs codec_values)
  have d: "webhookHandler exampleUnmarshal exampleMarshal exampleLess persistedCluster ''owasp''
     (Some scoreBoardWebhook) None = (200, persistedCluster)"
    using recorded by simp
  have e: "webhookHandler exampleUnmarshal exampleMarshal exampleLess persistedCluster ''owasp''
     (Some loginAdminWebhook) None =
     (200, PersistProgress exampleMarshal persistedCluster ''owasp''
             [scoreBoardSolved, loginAdminSolved] ''oldFindItCode'' ''oldFixItCode'')"
    using second by (simp add: codes)
  have f: "decodeChallengeStatus exampleUnmarshal
     (the (PersistProgress exampleMarshal persistedCluster ''owasp''
             [scoreBoardSolved, loginAdminSolved] ''oldFindItCode'' ''oldFixItCode''
             ''juiceshop-owasp'')) = [scoreBoardSolved, loginAdminSolved]"
    using codec_values(6)
    by (simp add: PersistProgress_def decodeChallengeStatus_def annotation_defs)
  from a b c d e f show ?thesis by blast
qed

theorem webhook_bonus_challenge_updates_only_its_code_witness:
  "webhookHandler exampleUnmarshal exampleMarshal exampleLess persistedCluster ''owasp''
     (Some findItWebhook) (Some liveProgress) =
     (200, PersistProgress exampleMarshal persistedCluster ''owasp'' [scoreBoardSolved]
             ''newFindItCode'' ''oldFixItCode'') \<and>
   decodeChallengeStatus exampleUnmarshal
     (the (snd (webhookHandler exampleUnmarshal exampleMarshal exampleLess persistedCluster ''owasp''
                  (Some findItWebhook) (Some liveProgress)) ''juiceshop-owasp''))
     = [scoreBoardSolved] \<and>
   webhookHandler exampleUnmarshal exampleMarshal exampleLess persistedCluster ''owasp''
     (Some fixItWebhook) (Some liveProgress) =
     (200, PersistProgress exampleMarshal persistedCluster ''owasp'' [scoreBoardSolved]
             ''oldFindItCode'' ''newFixItCode'') \<and>
   webhookHandler exampleUnmarshal exampleMarshal exampleLess persistedCluster ''owasp''
     (Some fixItWebhook) None = (500, persistedCluster)"
proof -
  have dep: "persistedCluster (''juiceshop-'' @ ''owasp'') = Some persistedAnnotations"
    by simp
  have rec: "decodeChallengeStatus exampleUnmarshal persistedAnnotations = [scoreBoardSolved]"
    by (simp add: decodeChallengeStatus_def annotation_defs codec_values)
  have codes: "index persistedAnnotations continueCodeFindItAnnotation = ''oldFindItCode''"
    "index persistedAnnotations continueCodeFixItAnnotation = ''oldFixItCode''"
    by (simp_all add: index_def annotation_defs)
  have f1: "prefix ''find-it-'' (Challenge findItWebhook) \<or>
            prefix ''fix-it-'' (Challenge findItWebhook)" by simp
  have f2: "prefix ''find-it-'' (Challenge fixItWebhook) \<or>
            prefix ''fix-it-'' (Challenge fixItWebhook)" by simp
  note viaFind = webhook_bonus_challenge_updates_only_its_code
    [where webhook = findItWebhook and cluster = persistedCluster and team = "''owasp''"
       and annotations = persistedAnnotations and unmarshal = exampleUnmarshal
       and marshal = exampleMarshal and Less = exampleLess and live = "Some liveProgress", OF f1 dep, unfolded rec]
  note viaFix = webhook_bonus_challenge_updates_only_its_code
    [where webhook = fixItWebhook and cluster = persistedCluster and team = "''owasp''"
       and annotations = persistedAnnotations and unmarshal = exampleUnmarshal
       and marshal = exampleMarshal and Less = exampleLess and live = "Some liveProgress", OF f2 dep, unfolded rec]
  note failing = webhook_bonus_challenge_updates_only_its_code
    [where webhook = fixItWebhook and cluster = persistedCluster and team = "''owasp''"
       and annotations = persistedAnnotations and unmarshal = exampleUnmarshal
       and marshal = exampleMarshal and Less = exampleLess and live = None, OF f2 dep, THEN conjunct1]
  have a: "webhookHandler exampleUnmarshal exampleMarshal exampleLess persistedCluster ''owasp''
     (Some findItWebhook) (Some liveProgress) =
     (200, PersistProgress exampleMarshal persistedCluster ''owasp'' [scoreBoardSolved]
             ''newFindItCode'' ''oldFixItCode'')"
    using viaFind [THEN conjunct2, THEN conjunct1] by (simp add: codes)
  have b: "decodeChallengeStatus exampleUnmarshal
     (the (snd (webhookHandler exampleUnmarshal exampleMarshal exampleLess persistedCluster ''owasp''
                  (Some findItWebhook) (Some liveProgress)) ''juiceshop-owasp''))
     = [scoreBoardSolved]"
    using viaFind [THEN conjunct2, THEN conjunct2] by (simp add: codec_values)
  have c: "webhookHandler exampleUnmarshal exampleMarshal exampleLess persistedCluster ''owasp''
     (Some fixItWebhook) (Some liveProgress) =
     (200, PersistProgress exampleMarshal persistedCluster ''owasp'' [scoreBoardSolved]
             ''oldFindItCode'' ''newFixItCode'')"
    using viaFix [THEN conjunct2, THEN conjunct1] by (simp add: codes)
  have d: "webhookHandler exampleUnmarshal exampleMarshal exampleLess persistedCluster ''owasp''
     (Some fixItWebhook) None = (500, persistedCluster)"
    using failing by simp
  from a b c d show ?thesis by blast
qed


theorem comparator_classifies_by_key_sets_witness:
  "CompareChallengeStates [scoreBoardSolved, loginAdminSolved]
     [scoreBoardSolved, loginAdminSolved] = NoOp \<and>
   CompareChallengeStates [scoreBoardSolved] [scoreBoardSolved, loginAdminSolved] = ApplyCode \<and>
   CompareChallengeStates [scoreBoardSolved, loginAdminSolved] [scoreBoardSolved]
     = UpdateCache \<and>
   CompareChallengeStates [loginAdminSolved] [scoreBoardSolved] \<noteq> NoOp \<and>
   workOnProgressUpdate exampleMarshal (\<lambda>ids. Inr ''code'')
     (createChallengeIdLookup [''scoreBoardChallenge'', ''loginAdminChallenge''])
     persistedCluster \<lparr>Team = ''owasp'', LastChallengeProgress = [scoreBoardSolved]\<rparr>
     (Some \<lparr>Challenges' = [scoreBoardSolved], ContinueCodeFindIt = ''oldFindItCode'',
            ContinueCodeFixIt = ''oldFixItCode''\<rparr>) None = ([], persistedCluster)"
proof -
  note same = comparator_classifies_by_key_sets
    [where live = "[scoreBoardSolved, loginAdminSolved]"
       and lastKnown = "[scoreBoardSolved, loginAdminSolved]", THEN conjunct1]
  note lost = comparator_classifies_by_key_sets
    [where live = "[scoreBoardSolved]"
       and lastKnown = "[scoreBoardSolved, loginAdminSolved]", THEN conjunct2, THEN conjunct1]
  note more = comparator_classifies_by_key_sets
    [where live = "[scoreBoardSolved, loginAdminSolved]"
       and lastKnown = "[scoreBoardSolved]", THEN conjunct2, THEN conjunct2, THEN conjunct1]
  note other = comparator_classifies_by_key_sets
    [where live = "[loginAdminSolved]" and lastKnown = "[scoreBoardSolved]",
     THEN conjunct2, THEN conjunct2, THEN conjunct2, THEN conjunct1]
  note worker = comparator_classifies_by_key_sets
    [where cluster = persistedCluster
       and job = "\<lparr>Team = ''owasp'', LastChallengeProgress = [scoreBoardSolved]\<rparr>"
       and annotations = persistedAnnotations
       and progress = "\<lparr>Challenges' = [scoreBoardSolved],
                          ContinueCodeFindIt = ''oldFindItCode'',
                          ContinueCodeFixIt = ''oldFixItCode''\<rparr>"
       and marshal = exampleMarshal and Encode = "\<lambda>ids. Inr ''code''"
       and lookup = "createChallengeIdLookup [''scoreBoardChallenge'', ''loginAdminChallenge'']"
       and refetched = None,
     THEN conjunct2, THEN conjunct2, THEN conjunct2, THEN conjunct2]
  have a: "CompareChallengeStates [scoreBoardSolved, loginAdminSolved]
             [scoreBoardSolved, loginAdminSolved] = NoOp"
    using same by simp
  have b: "CompareChallengeStates [scoreBoardSolved] [scoreBoardSolved, loginAdminSolved]
             = ApplyCode"
    using lost by simp
  have c: "CompareChallengeStates [scoreBoardSolved, loginAdminSolved] [scoreBoardSolved]
             = UpdateCache"
    using more by auto
  have d: "CompareChallengeStates [loginAdminSolved] [scoreBoardSolved] \<noteq> NoOp"
    using other by simp
  have e: "workOnProgressUpdate exampleMarshal (\<lambda>ids. Inr ''code'')
     (createChallengeIdLookup [''scoreBoardChallenge'', ''loginAdminChallenge''])
     persistedCluster \<lparr>Team = ''owasp'', LastChallengeProgress = [scoreBoardSolved]\<rparr>
     (Some \<lparr>Challenges' = [scoreBoardSolved], ContinueCodeFindIt = ''oldFindItCode'',
            ContinueCodeFixIt = ''oldFixItCode''\<rparr>) None = ([], persistedCluster)"
    using worker by (simp add: index_def annotation_defs)
  from a b c d e show ?thesis by blast
qed


text \<open>
  Claim C8 as stated fails: when the first \<open>List\<close> call fails the scheduler ends with
  the panic, and the next cycle, which would have sent a job for the ready instance,
  does not run.
\<close>

theorem failed_list_call_panics_counterexample:
  "createProgressUpdateJobs exampleUnmarshal
     [Inl ''connection refused'', Inr [readyInstance]] = ([], Panicked ''connection refused'') \<and>
   createProgressUpdateJobs exampleUnmarshal [Inr [readyInstance]] =
     ([\<lparr>Team = ''owasp'', LastChallengeProgress = [scoreBoardSolved]\<rparr>], StillRunning)"
  by (simp add: cycleJobs_def index_def annotation_defs codec_values)

theorem failed_list_call_panics_witness:
  "createProgressUpdateJobs exampleUnmarshal
     [Inr [startingInstance, readyInstance], Inl ''connection refused'',
      Inr [readyInstance]] =
     ([\<lparr>Team = ''owasp'', LastChallengeProgress = [scoreBoardSolved]\<rparr>],
      Panicked ''connection refused'')"
  using failed_list_call_panics
    [of exampleUnmarshal "[[startingInstance, readyInstance]]" "''connection refused''"
        "[Inr [readyInstance]]"]
  by (simp add: cycleJobs_def index_def annotation_defs codec_values)

end
